theory Spec2Isabelle
  imports Complex_Main "HOL-Library.Multiset"
begin

section \<open>Strings\<close>

text \<open>
  A JavaScript string is a sequence of UTF-16 code units. The formatter's glyphs lie
  outside ASCII and its regular expressions (no \<^verbatim>\<open>u\<close> flag) work on code units, so a string
  is modelled as the list of its code units, each a natural number. \<open>asc\<close> writes an ASCII
  literal.
\<close>

type_synonym jstring = "nat list"

definition asc :: "string \<Rightarrow> jstring" where
  "asc s = map of_char s"

text \<open>The character classes of the regular expressions: \<^verbatim>\<open>\d\<close>, \<^verbatim>\<open>[A-Z]\<close>, \<^verbatim>\<open>[a-z]\<close>, \<^verbatim>\<open>\w\<close>,
  the subscript range U+2080..U+2089 and the superscript range U+2070..U+2079.\<close>

definition isDigit :: "nat \<Rightarrow> bool" where
  "isDigit c \<longleftrightarrow> 48 \<le> c \<and> c \<le> 57"

definition isUpper :: "nat \<Rightarrow> bool" where
  "isUpper c \<longleftrightarrow> 65 \<le> c \<and> c \<le> 90"

definition isLower :: "nat \<Rightarrow> bool" where
  "isLower c \<longleftrightarrow> 97 \<le> c \<and> c \<le> 122"

definition isWord :: "nat \<Rightarrow> bool" where
  "isWord c \<longleftrightarrow> isDigit c \<or> isUpper c \<or> isLower c \<or> c = 95"

definition isSubRange :: "nat \<Rightarrow> bool" where
  "isSubRange c \<longleftrightarrow> 8320 \<le> c \<and> c \<le> 8329"

definition isSupRange :: "nat \<Rightarrow> bool" where
  "isSupRange c \<longleftrightarrow> 8304 \<le> c \<and> c \<le> 8313"

section \<open>The scientific-notation formatter\<close>

text \<open>The two glyph tables of \<^verbatim>\<open>formatScientificText\<close>: subscripts U+2080..U+2089; superscripts
  U+2070, U+00B9, U+00B2, U+00B3, U+2074..U+2079.\<close>

definition subGlyphs :: jstring where
  "subGlyphs = [8320, 8321, 8322, 8323, 8324, 8325, 8326, 8327, 8328, 8329]"

definition supGlyphs :: jstring where
  "supGlyphs = [8304, 185, 178, 179, 8308, 8309, 8310, 8311, 8312, 8313]"

text \<open>\<^verbatim>\<open>num.split('').map(d => table[parseInt(d)]).join('')\<close>: a digit is replaced by its glyph;
  any other code unit would index the table with NaN and join as the empty string.\<close>

definition glyphs :: "jstring \<Rightarrow> jstring \<Rightarrow> jstring" where
  "glyphs table num = concat (map (\<lambda>d. if isDigit d then [table ! (d - 48)] else []) num)"

definition toSub :: "jstring \<Rightarrow> jstring" where
  "toSub num = glyphs subGlyphs num"

definition toSup :: "jstring \<Rightarrow> jstring" where
  "toSup num = glyphs supGlyphs num"

text \<open>
  \<^verbatim>\<open>text.replace(re, fn)\<close> with a global regular expression scans the string from left to
  right. A matcher stands for one regular expression with its replacement function: given
  whether the code unit before the position is a word character, the code unit \<open>c\<close> at the
  position and the rest \<open>cs\<close>, it answers \<open>Some (out, k)\<close> when the expression matches
  \<open>c\<close> and the next \<open>k\<close> code units, \<open>out\<close> being the replacement, and \<open>None\<close> when it
  does not match there. After a match the scan goes on behind it; otherwise the code unit
  is kept and the scan moves one position.
\<close>

type_synonym matcher = "bool \<Rightarrow> nat \<Rightarrow> jstring \<Rightarrow> (jstring \<times> nat) option"

fun replaceAll :: "matcher \<Rightarrow> bool \<Rightarrow> jstring \<Rightarrow> jstring" where
  "replaceAll m prevWord [] = []"
| "replaceAll m prevWord (c # cs) =
     (case m prevWord c cs of
        Some (out, k) \<Rightarrow> out @ replaceAll m (isWord (last (c # take k cs))) (drop k cs)
      | None \<Rightarrow> c # replaceAll m (isWord c) cs)"

text \<open>The greedy group \<^verbatim>\<open>(\d+)\<close> at the head of a string.\<close>

definition digitRun :: "jstring \<Rightarrow> jstring" where
  "digitRun cs = takeWhile isDigit cs"

text \<open>\<^verbatim>\<open>/\^(\d+)/g\<close> with \<^verbatim>\<open>toSup(num)\<close>.\<close>

definition caretRule :: matcher where
  "caretRule prevWord c cs =
     (if c = 94 \<and> digitRun cs \<noteq> [] then Some (toSup (digitRun cs), length (digitRun cs))
      else None)"

text \<open>\<^verbatim>\<open>/_(\d+)/g\<close> with \<^verbatim>\<open>toSub(num)\<close>.\<close>

definition underscoreRule :: matcher where
  "underscoreRule prevWord c cs =
     (if c = 95 \<and> digitRun cs \<noteq> [] then Some (toSub (digitRun cs), length (digitRun cs))
      else None)"

text \<open>\<^verbatim>\<open>/([sub0-sub9])(\d+)/g\<close> with \<^verbatim>\<open>prev + toSub(num)\<close>.\<close>

definition subExtendRule :: matcher where
  "subExtendRule prevWord c cs =
     (if isSubRange c \<and> digitRun cs \<noteq> [] then Some (c # toSub (digitRun cs), length (digitRun cs))
      else None)"

text \<open>\<^verbatim>\<open>/([sup0-sup9])(\d+)/g\<close> with \<^verbatim>\<open>prev + toSup(num)\<close>.\<close>

definition supExtendRule :: matcher where
  "supExtendRule prevWord c cs =
     (if isSupRange c \<and> digitRun cs \<noteq> [] then Some (c # toSup (digitRun cs), length (digitRun cs))
      else None)"

text \<open>\<^verbatim>\<open>/([A-Z][a-z]?)(\d+)/g\<close> with \<^verbatim>\<open>el + toSub(num)\<close>: the optional lower-case letter is
  tried first; without it the digits must follow the capital at once.\<close>

definition elementRule :: matcher where
  "elementRule prevWord c cs =
     (if isUpper c then
        (case cs of
           l # ds \<Rightarrow>
             if isLower l \<and> digitRun ds \<noteq> []
             then Some (c # l # toSub (digitRun ds), Suc (length (digitRun ds)))
             else if digitRun cs \<noteq> []
             then Some (c # toSub (digitRun cs), length (digitRun cs))
             else None
         | [] \<Rightarrow> None)
      else None)"

text \<open>\<^verbatim>\<open>/\b([a-z])(\d+)/g\<close> with \<^verbatim>\<open>char + toSup(num)\<close>: \<^verbatim>\<open>\b\<close> holds where exactly one of
  the code units before and at the position is a word character.\<close>

definition variableRule :: matcher where
  "variableRule prevWord c cs =
     (if prevWord \<noteq> isWord c \<and> isLower c \<and> digitRun cs \<noteq> []
      then Some (c # toSup (digitRun cs), length (digitRun cs))
      else None)"

definition formatScientificText :: "jstring \<Rightarrow> jstring" where
  "formatScientificText text =
     (if text = [] then []
      else
        let newText = replaceAll caretRule False text;
            newText = replaceAll underscoreRule False newText;
            newText = replaceAll subExtendRule False newText;
            newText = replaceAll supExtendRule False newText;
            newText = replaceAll elementRule False newText;
            newText = replaceAll variableRule False newText
        in newText)"

subsection \<open>Adjacent code units\<close>

text \<open>
  What the rules look at: whether a string starts with a code unit of a class, or with two
  of given classes; whether it is free of two, or of three, adjacent code units of given
  classes; whether a rule matches nowhere in it, scanning as \<open>replaceAll\<close> does.
\<close>

definition headIs :: "(nat \<Rightarrow> bool) \<Rightarrow> jstring \<Rightarrow> bool" where
  "headIs A t = (case t of [] \<Rightarrow> False | x # xs \<Rightarrow> A x)"

fun noPair :: "(nat \<Rightarrow> bool) \<Rightarrow> (nat \<Rightarrow> bool) \<Rightarrow> jstring \<Rightarrow> bool" where
  "noPair A B (a # b # cs) = (\<not> (A a \<and> B b) \<and> noPair A B (b # cs))"
| "noPair A B cs = True"

fun noTriple :: "(nat \<Rightarrow> bool) \<Rightarrow> (nat \<Rightarrow> bool) \<Rightarrow> (nat \<Rightarrow> bool) \<Rightarrow> jstring \<Rightarrow> bool" where
  "noTriple A B C (a # b # c # cs) = (\<not> (A a \<and> B b \<and> C c) \<and> noTriple A B C (b # c # cs))"
| "noTriple A B C cs = True"

text \<open>
  What the six rules have in common: a match starts at no digit; its replacement is not
  empty, holds no digit and ends in a glyph; the digits it consumed are not followed by a
  further digit; and a replacement that starts with a lower-case letter starts with the
  matched one and is followed by a glyph.
\<close>

definition cleanMatch :: "matcher \<Rightarrow> bool" where
  "cleanMatch m \<longleftrightarrow>
     (\<forall>p c cs out k. m p c cs = Some (out, k) \<longrightarrow>
        \<not> isDigit c \<and> out \<noteq> [] \<and> (\<forall>x \<in> set out. \<not> isDigit x) \<and> 128 \<le> last out
        \<and> \<not> headIs isDigit (drop k cs)
        \<and> (\<not> isLower (hd out) \<or> (hd out = c \<and> 2 \<le> length out)))"

definition headIs2 :: "(nat \<Rightarrow> bool) \<Rightarrow> (nat \<Rightarrow> bool) \<Rightarrow> jstring \<Rightarrow> bool" where
  "headIs2 A B t = (case t of a # b # cs \<Rightarrow> A a \<and> B b | _ \<Rightarrow> False)"

fun quiet :: "matcher \<Rightarrow> bool \<Rightarrow> jstring \<Rightarrow> bool" where
  "quiet m p [] = True"
| "quiet m p (c # cs) = (m p c cs = None \<and> quiet m (isWord c) cs)"

text \<open>
  Whether somewhere in a string a lower-case letter stands at a word boundary, that is at
  the start or after a code unit that is no word character, and is immediately followed by
  a digit. \<open>prevWord\<close> tells whether a word character stands before the string.
\<close>

fun boundaryLetterDigit :: "bool \<Rightarrow> jstring \<Rightarrow> bool" where
  "boundaryLetterDigit prevWord [] = False"
| "boundaryLetterDigit prevWord (c # cs) =
     ((isLower c \<and> headIs isDigit cs \<and> \<not> prevWord) \<or> boundaryLetterDigit (isWord c) cs)"

section \<open>JSON values\<close>

text \<open>
  The value \<^verbatim>\<open>JSON.parse\<close> hands to the normalizer. An object is the list of its own
  properties in the order of \<^verbatim>\<open>Object.keys\<close>, with distinct keys. A number is an integer of
  the range that a JavaScript number holds exactly; numbers with a fraction or an exponent
  are not represented. \<^verbatim>\<open>undefined\<close> is \<open>None\<close> of \<open>json option\<close>.
\<close>

datatype json =
    JNull
  | JBool bool
  | JNum int
  | JStr jstring
  | JArr "json list"
  | JObj "(jstring \<times> json) list"

text \<open>Truthiness, as \<^verbatim>\<open>if (v)\<close>, \<^verbatim>\<open>v && _\<close> and \<^verbatim>\<open>v || _\<close> read it.\<close>

fun truthy :: "json option \<Rightarrow> bool" where
  "truthy None = False"
| "truthy (Some JNull) = False"
| "truthy (Some (JBool b)) = b"
| "truthy (Some (JNum n)) = (n \<noteq> 0)"
| "truthy (Some (JStr s)) = (s \<noteq> [])"
| "truthy (Some (JArr xs)) = True"
| "truthy (Some (JObj kvs)) = True"

text \<open>\<^verbatim>\<open>a || b\<close>.\<close>

definition orElse :: "json option \<Rightarrow> json option \<Rightarrow> json option" where
  "orElse a b = (if truthy a then a else b)"

fun isArray :: "json option \<Rightarrow> bool" where
  "isArray (Some (JArr xs)) = True"
| "isArray v = False"

text \<open>\<^verbatim>\<open>typeof v === 'object'\<close>, which holds of \<^verbatim>\<open>null\<close> too.\<close>

fun typeofObject :: "json option \<Rightarrow> bool" where
  "typeofObject (Some JNull) = True"
| "typeofObject (Some (JArr xs)) = True"
| "typeofObject (Some (JObj kvs)) = True"
| "typeofObject v = False"

text \<open>Decimal digits of a natural number.\<close>

function showNat :: "nat \<Rightarrow> jstring" where
  "showNat n = (if n < 10 then [48 + n] else showNat (n div 10) @ [48 + n mod 10])"
  by pat_completeness auto
termination
  by (relation "measure (\<lambda>n. n)") auto

text \<open>\<^verbatim>\<open>xs.join(sep)\<close> on strings.\<close>

fun joinWith :: "jstring \<Rightarrow> jstring list \<Rightarrow> jstring" where
  "joinWith sep [] = []"
| "joinWith sep [x] = x"
| "joinWith sep (x # y # ys) = x @ sep @ joinWith sep (y # ys)"

text \<open>
  \<^verbatim>\<open>String(v)\<close>: an array prints its elements joined by commas, \<^verbatim>\<open>null\<close> elements as the
  empty string; an object prints as \<^verbatim>\<open>[object Object]\<close>. The decimal form of a number is
  the runtime's below \<open>10\<^sup>2\<^sup>1\<close> in absolute value; from there on the runtime prints an
  exponent. An object with an own property \<^verbatim>\<open>toString\<close>, which JSON cannot make callable,
  has no string in the runtime: \<^verbatim>\<open>String\<close> raises a TypeError on it and on an array that
  holds it. The function here is total and covers the values without such a property.
\<close>

fun jsString :: "json \<Rightarrow> jstring" where
  "jsString JNull = asc ''null''"
| "jsString (JBool b) = (if b then asc ''true'' else asc ''false'')"
| "jsString (JNum n) = (if n < 0 then 45 # showNat (nat (- n)) else showNat (nat n))"
| "jsString (JStr s) = s"
| "jsString (JArr xs) = joinWith [44] (map (\<lambda>x. if x = JNull then [] else jsString x) xs)"
| "jsString (JObj kvs) = asc ''[object Object]''"

text \<open>\<^verbatim>\<open>String(v)\<close> with \<^verbatim>\<open>undefined\<close> allowed.\<close>

fun toString :: "json option \<Rightarrow> jstring" where
  "toString None = asc ''undefined''"
| "toString (Some v) = jsString v"

text \<open>
  The own enumerable properties of a value in the order of \<^verbatim>\<open>Object.keys\<close>: those of an
  object; the indices of an array with its elements; the indices of a string with its code
  units; none for the other values.
\<close>

fun ownProps :: "json \<Rightarrow> (jstring \<times> json) list" where
  "ownProps (JObj kvs) = kvs"
| "ownProps (JArr xs) = zip (map showNat [0..<length xs]) xs"
| "ownProps (JStr s) = zip (map showNat [0..<length s]) (map (\<lambda>c. JStr [c]) s)"
| "ownProps v = []"

text \<open>
  The property read \<^verbatim>\<open>v[k]\<close>, for the names the normalizer reads: the fixed names of its
  source, own keys and the empty string. None of them is inherited from a prototype, so the
  read finds an own property or \<^verbatim>\<open>undefined\<close>.
\<close>

definition getProp :: "json \<Rightarrow> jstring \<Rightarrow> json option" where
  "getProp v k = map_of (ownProps v) k"

text \<open>
  \<^verbatim>\<open>s.toLowerCase()\<close>: exact on ASCII. U+0130 and U+212A are the code units outside ASCII
  whose lower case holds an ASCII letter, and are written out. Any other code unit outside
  ASCII is left as it is; the runtime maps it to code units outside ASCII, which the ASCII
  search words of the normalizer cannot tell apart.
\<close>

definition toLowerCase :: "jstring \<Rightarrow> jstring" where
  "toLowerCase s =
     concat (map (\<lambda>c. if isUpper c then [c + 32]
                       else if c = 304 then [105, 775]
                       else if c = 8490 then [107]
                       else [c]) s)"

text \<open>\<^verbatim>\<open>hay.includes(needle)\<close>.\<close>

fun strIncludes :: "jstring \<Rightarrow> jstring \<Rightarrow> bool" where
  "strIncludes [] needle = (needle = [])"
| "strIncludes (c # cs) needle = (take (length needle) (c # cs) = needle \<or> strIncludes cs needle)"

section \<open>Questions and exams\<close>

datatype qtype = MultipleChoice | TrueFalse | ShortAnswer

text \<open>The interface \<^verbatim>\<open>Question\<close>; \<open>correctAnswerText\<close> is optional there.\<close>

record question =
  qid :: jstring
  qtype :: qtype
  qtext :: jstring
  options :: "jstring list"
  correctAnswer :: int
  correctAnswerText :: "jstring option"

text \<open>The properties of an exam object that the authoring code names, \<open>questions\<close> apart.\<close>

datatype examKey =
    Id | Title | Description | DurationMinutes | QuestionCount | TotalMarks | Difficulty
  | ScheduledDate | IsPublished | MaxAttempts | ShuffleQuestions | NegativeMarking
  | TargetClass | TargetDivision

text \<open>
  The value of such a property: a string, the number \<^verbatim>\<open>Number(v)\<close> of a value \<open>v\<close>
  (kept unevaluated: reading a number out of a string is the runtime's), a boolean, or a
  value as it came.
\<close>

datatype metaval = MString jstring | MNumber "json option" | MBoolean bool | MRaw "json option"

type_synonym props = "examKey \<rightharpoonup> metaval"

section \<open>The question-bank normalizer\<close>

text \<open>
  \<^verbatim>\<open>Object.keys(item).find(k => names.some(s => k.toLowerCase().includes(s))) || ''\<close>:
  the first own key whose lower case holds one of the names, the empty string when there is
  none.
\<close>

definition findKey :: "jstring list \<Rightarrow> json \<Rightarrow> jstring" where
  "findKey names item =
     (case find (\<lambda>k. \<exists>s \<in> set names. strIncludes (toLowerCase k) s) (map fst (ownProps item)) of
        Some k \<Rightarrow> k
      | None \<Rightarrow> [])"

definition textKey :: "json \<Rightarrow> jstring" where
  "textKey item = findKey [asc ''text'', asc ''question'', asc ''prompt''] item"

definition optionsKey :: "json \<Rightarrow> jstring" where
  "optionsKey item = findKey [asc ''options'', asc ''choices'', asc ''answers''] item"

definition correctKey :: "json \<Rightarrow> jstring" where
  "correctKey item = findKey [asc ''correct'', asc ''answer''] item"

text \<open>\<^verbatim>\<open>item[textKey] ? String(item[textKey]) : ''\<close>.\<close>

definition itemText :: "json \<Rightarrow> jstring" where
  "itemText item =
     (if truthy (getProp item (textKey item)) then toString (getProp item (textKey item)) else [])"

text \<open>
  The two tests on \<^verbatim>\<open>item.type\<close>. A falsy \<^verbatim>\<open>item.type\<close> leaves the default. A truthy one is
  sent \<^verbatim>\<open>toLowerCase()\<close>, which only a string has: any other truthy value raises a
  TypeError, the result \<open>None\<close> here.
\<close>

definition resolveType :: "json \<Rightarrow> qtype option" where
  "resolveType item =
     (case getProp item (asc ''type'') of
        Some (JStr s) \<Rightarrow>
          if s \<noteq> [] \<and> strIncludes (toLowerCase s) (asc ''short'') then Some ShortAnswer
          else if s \<noteq> [] \<and> (strIncludes (toLowerCase s) (asc ''true'') \<or> s = asc ''tf'')
          then Some TrueFalse
          else Some MultipleChoice
      | t \<Rightarrow> if truthy t then None else Some MultipleChoice)"

text \<open>\<^verbatim>\<open>Array.isArray(item[optionsKey]) ? item[optionsKey].map(String) : []\<close>.\<close>

definition foundOptions :: "json \<Rightarrow> jstring list" where
  "foundOptions item =
     (case getProp item (optionsKey item) of
        Some (JArr xs) \<Rightarrow> map jsString xs
      | _ \<Rightarrow> [])"

text \<open>The two lines that settle the options by the type.\<close>

definition settleOptions :: "qtype \<Rightarrow> jstring list \<Rightarrow> jstring list" where
  "settleOptions ty opts =
     (let opts = (if ty = MultipleChoice \<and> length opts < 2 then [[], [], [], []] else opts);
          opts = (if ty = TrueFalse then [asc ''True'', asc ''False''] else opts)
      in opts)"

text \<open>\<^verbatim>\<open>item[correctKey]\<close>, the resolved correct-answer field.\<close>

definition correctField :: "json \<Rightarrow> json option" where
  "correctField item = getProp item (correctKey item)"

text \<open>\<^verbatim>\<open>typeof item[correctKey] === 'number' ? item[correctKey] : 0\<close>.\<close>

definition itemCorrectAnswer :: "json \<Rightarrow> int" where
  "itemCorrectAnswer item = (case correctField item of Some (JNum n) \<Rightarrow> n | _ \<Rightarrow> 0)"

text \<open>\<^verbatim>\<open>type === 'short-answer' ? String(item[correctKey] || '') : ''\<close>.\<close>

definition itemCorrectAnswerText :: "qtype \<Rightarrow> json \<Rightarrow> jstring" where
  "itemCorrectAnswerText ty item =
     (if ty = ShortAnswer then toString (orElse (correctField item) (Some (JStr []))) else [])"

text \<open>
  The function mapped over the candidate array. An element that is no object (or is
  \<^verbatim>\<open>null\<close>) gives \<^verbatim>\<open>null\<close>, which the later \<^verbatim>\<open>filter(Boolean)\<close> drops; the type test may
  raise; otherwise a question is made, with a fresh id, and the formatter applied to the
  text, to every option and to the answer text.
\<close>

datatype itemResult = Dropped | Raised | Made question

definition parseItem :: "jstring \<Rightarrow> json \<Rightarrow> itemResult" where
  "parseItem newId item =
     (if \<not> typeofObject (Some item) \<or> item = JNull then Dropped
      else
        case resolveType item of
          None \<Rightarrow> Raised
        | Some ty \<Rightarrow>
            Made \<lparr> qid = newId,
                   qtype = ty,
                   qtext = formatScientificText (itemText item),
                   options = map formatScientificText (settleOptions ty (foundOptions item)),
                   correctAnswer = itemCorrectAnswer item,
                   correctAnswerText = Some (formatScientificText (itemCorrectAnswerText ty item)) \<rparr>)"

text \<open>
  \<^verbatim>\<open>potentialArray.map(...).filter(Boolean)\<close>. \<^verbatim>\<open>generateId()\<close> reads the clock and a random
  number; the model takes the ids from a supply \<open>gen\<close>, whose \<open>n\<close>-th value is the result
  of the \<open>n\<close>-th call. \<open>None\<close> is an exception raised on the way.
\<close>

fun parseItems :: "(nat \<Rightarrow> jstring) \<Rightarrow> nat \<Rightarrow> json list \<Rightarrow> question list option" where
  "parseItems gen n [] = Some []"
| "parseItems gen n (item # items) =
     (case parseItem (gen n) item of
        Dropped \<Rightarrow> parseItems gen n items
      | Raised \<Rightarrow> None
      | Made q \<Rightarrow> map_option ((#) q) (parseItems gen (Suc n) items))"

text \<open>The metadata read from the root object, one line of the source each.\<close>

definition setIf :: "bool \<Rightarrow> examKey \<Rightarrow> metaval \<Rightarrow> props \<Rightarrow> props" where
  "setIf c k v m = (if c then m(k \<mapsto> v) else m)"

definition extractMeta :: "json \<Rightarrow> props" where
  "extractMeta rootObj =
     (let p = (\<lambda>name. getProp rootObj (asc name));
          meta = Map.empty;
          meta = setIf (truthy (p ''title'')) Title (MString (toString (p ''title''))) meta;
          meta = setIf (truthy (p ''description'')) Description
                   (MString (toString (p ''description''))) meta;
          meta = setIf (truthy (p ''durationMinutes'') \<or> truthy (p ''duration'')) DurationMinutes
                   (MNumber (orElse (p ''durationMinutes'') (p ''duration''))) meta;
          meta = setIf (truthy (p ''difficulty'')) Difficulty
                   (MRaw (p ''difficulty'')) meta;
          meta = setIf (truthy (p ''totalMarks'')) TotalMarks (MNumber (p ''totalMarks'')) meta;
          meta = setIf (p ''maxAttempts'' \<noteq> None) MaxAttempts (MNumber (p ''maxAttempts'')) meta;
          meta = setIf (p ''shuffleQuestions'' \<noteq> None) ShuffleQuestions
                   (MBoolean (truthy (p ''shuffleQuestions''))) meta;
          meta = setIf (p ''negativeMarking'' \<noteq> None) NegativeMarking
                   (MNumber (p ''negativeMarking'')) meta;
          meta = setIf (p ''targetClass'' \<noteq> None) TargetClass
                   (MString (toString (p ''targetClass''))) meta;
          meta = setIf (p ''targetDivision'' \<noteq> None) TargetDivision
                   (MString (toString (p ''targetDivision''))) meta
      in meta)"

text \<open>\<^verbatim>\<open>json.exam || json\<close>.\<close>

definition rootOf :: "json \<Rightarrow> json" where
  "rootOf json = (case orElse (getProp json (asc ''exam'')) (Some json) of Some r \<Rightarrow> r | None \<Rightarrow> json)"

text \<open>The loop over \<^verbatim>\<open>Object.keys(root)\<close>: the first property that is a non-empty array
  whose first element has \<^verbatim>\<open>typeof\<close> \<^verbatim>\<open>'object'\<close>; \<open>start\<close> when there is none.\<close>

definition firstObjectArray :: "json \<Rightarrow> json \<Rightarrow> json" where
  "firstObjectArray start rootObj =
     (case find (\<lambda>(k, v). case v of JArr (x # xs) \<Rightarrow> typeofObject (Some x) | _ \<Rightarrow> False)
                (ownProps rootObj) of
        Some (k, v) \<Rightarrow> v
      | None \<Rightarrow> start)"

text \<open>The search for \<^verbatim>\<open>potentialArray\<close>, which starts as the empty array.\<close>

definition locateArray :: "json \<Rightarrow> json" where
  "locateArray json =
     (let potentialArray = JArr [] in
      case json of
        JArr xs \<Rightarrow> json
      | JObj kvs \<Rightarrow>
          (let rootObj = rootOf json in
           case getProp rootObj (asc ''questions'') of
             Some (JArr qs) \<Rightarrow> JArr qs
           | _ \<Rightarrow>
              (case getProp rootObj (asc ''data'') of
                 Some (JArr ds) \<Rightarrow> JArr ds
               | _ \<Rightarrow> firstObjectArray potentialArray rootObj))
      | _ \<Rightarrow> potentialArray)"

text \<open>
  The two error results of the normalizer: \<^verbatim>\<open>"Structure Error: JSON must be an array or
  contain a 'questions' array."\<close> and, from the \<^verbatim>\<open>catch\<close> block, \<^verbatim>\<open>"Malformed JSON."\<close>.
\<close>

datatype parseError = StructureError | MalformedJSON

record parsed =
  questions :: "question list"
  meta :: props
  error :: "parseError option"

definition smartParseJSON :: "(nat \<Rightarrow> jstring) \<Rightarrow> json \<Rightarrow> parsed" where
  "smartParseJSON gen json =
     (let meta = (case json of JObj kvs \<Rightarrow> extractMeta (rootOf json) | _ \<Rightarrow> Map.empty);
          potentialArray = locateArray json
      in
        if \<not> truthy (Some potentialArray) \<or> \<not> isArray (Some potentialArray)
        then \<lparr> questions = [], meta = Map.empty, error = Some StructureError \<rparr>
        else
          case potentialArray of
            JArr items \<Rightarrow>
              (case parseItems gen 0 items of
                 Some qs \<Rightarrow> \<lparr> questions = qs, meta = meta, error = None \<rparr>
               | None \<Rightarrow> \<lparr> questions = [], meta = Map.empty, error = Some MalformedJSON \<rparr>)
          | _ \<Rightarrow> \<lparr> questions = [], meta = Map.empty, error = Some MalformedJSON \<rparr>)"

section \<open>The exam in the editor\<close>

text \<open>
  The exam object held by the editor: its named properties, absent ones left out, and its
  \<^verbatim>\<open>questions\<close>, which the code guards against being \<^verbatim>\<open>undefined\<close>.
\<close>

record exam =
  examProps :: props
  examQuestions :: "question list option"

text \<open>The type switch of the builder: \<^verbatim>\<open>{ ...qs[idx], type }\<close> followed by the reset that
  belongs to the new type.\<close>

definition retype :: "qtype \<Rightarrow> question \<Rightarrow> question" where
  "retype ty q0 =
     (let q = q0\<lparr> qtype := ty \<rparr> in
      if ty = TrueFalse then q\<lparr> options := [asc ''True'', asc ''False''], correctAnswer := 0 \<rparr>
      else if ty = ShortAnswer then q\<lparr> options := [], correctAnswerText := Some [] \<rparr>
      else if ty = MultipleChoice then q\<lparr> options := [[], [], [], []], correctAnswer := 0 \<rparr>
      else q)"

text \<open>
  \<^verbatim>\<open>changeType(idx, type)\<close> on the question list. For an index past the end the source
  stores, beyond the end of the array, an object that has neither id nor text; that array
  is no list of questions, and the result is \<open>None\<close> here.
\<close>

definition changeType :: "nat \<Rightarrow> qtype \<Rightarrow> question list \<Rightarrow> question list option" where
  "changeType idx ty qs =
     (if idx < length qs then Some (qs[idx := retype ty (qs ! idx)]) else None)"

subsection \<open>Export and apply\<close>

definition typeName :: "qtype \<Rightarrow> jstring" where
  "typeName ty =
     (case ty of
        MultipleChoice \<Rightarrow> asc ''multiple-choice''
      | TrueFalse \<Rightarrow> asc ''true-false''
      | ShortAnswer \<Rightarrow> asc ''short-answer'')"

text \<open>
  The export projection of one question, as \<^verbatim>\<open>JSON.stringify\<close> writes it and \<^verbatim>\<open>JSON.parse\<close>
  reads it back: the five properties in the order of the source, without the id; a
  property that is \<^verbatim>\<open>undefined\<close> is left out.
\<close>

definition exportQuestion :: "question \<Rightarrow> json" where
  "exportQuestion q =
     JObj ([(asc ''text'', JStr (qtext q)),
            (asc ''type'', JStr (typeName (qtype q))),
            (asc ''options'', JArr (map JStr (options q))),
            (asc ''correctAnswer'', JNum (correctAnswer q))]
           @ (case correctAnswerText q of
                None \<Rightarrow> []
              | Some t \<Rightarrow> [(asc ''correctAnswerText'', JStr t)]))"

text \<open>
  A property value as \<^verbatim>\<open>JSON.stringify\<close> writes it and \<^verbatim>\<open>JSON.parse\<close> reads it back;
  \<open>None\<close> for \<^verbatim>\<open>undefined\<close>, which is left out. \<open>numJson v\<close> stands for what the runtime
  makes of the number \<^verbatim>\<open>Number(v)\<close>: a number, or \<^verbatim>\<open>null\<close> for NaN and the infinities.
\<close>

definition serial :: "(json option \<Rightarrow> json) \<Rightarrow> metaval \<Rightarrow> json option" where
  "serial numJson v =
     (case v of
        MString s \<Rightarrow> Some (JStr s)
      | MNumber j \<Rightarrow> Some (numJson j)
      | MBoolean b \<Rightarrow> Some (JBool b)
      | MRaw j \<Rightarrow> j)"

definition exportedProps :: "(string \<times> examKey) list" where
  "exportedProps =
     [(''title'', Title), (''description'', Description), (''difficulty'', Difficulty),
      (''durationMinutes'', DurationMinutes), (''maxAttempts'', MaxAttempts),
      (''shuffleQuestions'', ShuffleQuestions), (''negativeMarking'', NegativeMarking),
      (''targetClass'', TargetClass), (''targetDivision'', TargetDivision)]"

text \<open>\<^verbatim>\<open>exportData\<close> of the data tab, after \<^verbatim>\<open>JSON.stringify\<close> and \<^verbatim>\<open>JSON.parse\<close>.\<close>

definition exportData :: "(json option \<Rightarrow> json) \<Rightarrow> exam \<Rightarrow> json" where
  "exportData numJson ex =
     JObj (List.map_filter
             (\<lambda>(name, k).
                 map_option (\<lambda>j. (asc name, j)) (Option.bind (examProps ex k) (serial numJson)))
             exportedProps
           @ (case examQuestions ex of
                None \<Rightarrow> []
              | Some qs \<Rightarrow> [(asc ''questions'', JArr (map exportQuestion qs))]))"

text \<open>
  \<^verbatim>\<open>handleApplyJson\<close>. \<^verbatim>\<open>JSON.parse\<close> is the runtime's: its outcome is given, \<open>None\<close> when
  it raises. The result is the exam, the error shown under the editor, and whether the
  success alert was raised.
\<close>

datatype applyError = InvalidSyntax | Reported parseError

definition handleApplyJson ::
  "(nat \<Rightarrow> jstring) \<Rightarrow> json option \<Rightarrow> exam \<Rightarrow> exam \<times> applyError option \<times> bool" where
  "handleApplyJson gen parsedJson prev =
     (case parsedJson of
        None \<Rightarrow> (prev, Some InvalidSyntax, False)
      | Some j \<Rightarrow>
          (let r = smartParseJSON gen j in
           case error r of
             Some e \<Rightarrow> (prev, Some (Reported e), False)
           | None \<Rightarrow>
               (\<lparr> examProps = examProps prev ++ meta r,
                   examQuestions =
                     (if length (questions r) > 0 then Some (questions r) else examQuestions prev) \<rparr>,
                None, True)))"

section \<open>Results\<close>

text \<open>
  A JavaScript number as far as the results screen needs it: a finite value, taken as an
  exact rational, the two infinities and NaN, which a division by zero produces. The
  runtime computes in binary floating point: where the exact hundredfold quotient ends in
  one half, as for 23 marks of 40, its rounding error can put \<^verbatim>\<open>Math.round\<close> one below the
  value computed here.
\<close>

datatype jsnumber = Fin rat | PosInf | NegInf | NaN

definition divide :: "rat \<Rightarrow> rat \<Rightarrow> jsnumber" where
  "divide a b =
     (if b \<noteq> 0 then Fin (a / b)
      else if a > 0 then PosInf
      else if a < 0 then NegInf
      else NaN)"

definition times :: "jsnumber \<Rightarrow> rat \<Rightarrow> jsnumber" where
  "times x k = (case x of Fin a \<Rightarrow> Fin (a * k) | other \<Rightarrow> other)"

text \<open>\<^verbatim>\<open>Math.round\<close>: the nearest integer, halves upwards.\<close>

definition mathRound :: "jsnumber \<Rightarrow> jsnumber" where
  "mathRound x = (case x of Fin a \<Rightarrow> Fin (of_int \<lfloor>a + 1 / 2\<rfloor>) | other \<Rightarrow> other)"

text \<open>\<^verbatim>\<open>x >= k\<close>.\<close>

definition atLeastNum :: "jsnumber \<Rightarrow> rat \<Rightarrow> bool" where
  "atLeastNum x k = (case x of Fin a \<Rightarrow> a \<ge> k | PosInf \<Rightarrow> True | NegInf \<Rightarrow> False | NaN \<Rightarrow> False)"

text \<open>
  The fields of a result that the screen computes with. \<open>submittedAt\<close> holds what
  \<^verbatim>\<open>parseDate\<close> makes of the stored value: \<open>None\<close> for \<^verbatim>\<open>null\<close>, else the time in
  milliseconds.
\<close>

record result =
  rid :: jstring
  examId :: jstring
  studentId :: jstring
  score :: rat
  totalMarks :: rat
  submittedAt :: "int option"
  answers :: "int list"

text \<open>The table row: \<^verbatim>\<open>Math.round((result.score/result.totalMarks)*100)\<close> and
  \<^verbatim>\<open>percentage >= 50\<close>.\<close>

definition percentage :: "result \<Rightarrow> jsnumber" where
  "percentage r = mathRound (times (divide (score r) (totalMarks r)) 100)"

definition isPassed :: "result \<Rightarrow> bool" where
  "isPassed r = atLeastNum (percentage r) 50"

text \<open>The summary above the table:
  \<^verbatim>\<open>filteredResults.filter(r => (r.score / r.totalMarks) >= 0.5).length\<close>.\<close>

definition passedCount :: "result list \<Rightarrow> nat" where
  "passedCount filteredResults =
     length (filter (\<lambda>r. atLeastNum (divide (score r) (totalMarks r)) (1 / 2)) filteredResults)"

subsection \<open>Attempt numbering\<close>






subsection \<open>Answer key breakdown\<close>

text \<open>\<^verbatim>\<open>selectedResult.answers[idx]\<close>: \<^verbatim>\<open>undefined\<close> past the end of the array.\<close>

definition answerAt :: "int list \<Rightarrow> nat \<Rightarrow> int option" where
  "answerAt as idx = (if idx < length as then Some (as ! idx) else None)"

text \<open>What the breakdown computes for one question: the three constants of the source and,
  for a question with options, \<^verbatim>\<open>isSelected\<close> and \<^verbatim>\<open>isRealCorrect\<close> of every option.\<close>

record verdict =
  studentAnswerIdx :: "int option"
  isCorrect :: bool
  isSkipped :: bool
  optionRows :: "(bool \<times> bool) list"

definition reviewQuestion :: "int list \<Rightarrow> nat \<Rightarrow> question \<Rightarrow> verdict" where
  "reviewQuestion as idx q =
     (let a = answerAt as idx in
      \<lparr> studentAnswerIdx = a,
        isCorrect = (a = Some (correctAnswer q)),
        isSkipped = (a = Some (- 1) \<or> a = None),
        optionRows =
          (if qtype q = ShortAnswer then []
           else map (\<lambda>optIdx. (a = Some (int optIdx), correctAnswer q = int optIdx))
                  [0..<length (options q)]) \<rparr>)"

text \<open>\<^verbatim>\<open>reviewExam.questions.map((q, idx) => ...)\<close>.\<close>

definition reviewBreakdown :: "result \<Rightarrow> question list \<Rightarrow> verdict list" where
  "reviewBreakdown selectedResult qs =
     map (\<lambda>(idx, q). reviewQuestion (answers selectedResult) idx q) (enumerate 0 qs)"

section \<open>Evaluation\<close>

text \<open>The defining equations that unfold the model on a concrete input.\<close>

lemmas norm_defs = findKey_def textKey_def optionsKey_def correctKey_def itemText_def
  resolveType_def foundOptions_def settleOptions_def correctField_def itemCorrectAnswer_def
  itemCorrectAnswerText_def parseItem_def getProp_def orElse_def toLowerCase_def asc_def
  isUpper_def

lemmas fmt_defs = formatScientificText_def caretRule_def underscoreRule_def subExtendRule_def
  supExtendRule_def elementRule_def variableRule_def digitRun_def toSub_def toSup_def glyphs_def
  subGlyphs_def supGlyphs_def isDigit_def isLower_def isWord_def isSubRange_def
  isSupRange_def

lemmas parse_defs = smartParseJSON_def locateArray_def rootOf_def extractMeta_def setIf_def
  firstObjectArray_def

section \<open>Properties of the formatter\<close>

text \<open>Every rule needs an ASCII digit to match: a string without one passes every
  replacement, and so the whole formatter, unchanged.\<close>

lemma digitRun_no_digit: "\<forall>x\<in>set cs. \<not> isDigit x \<Longrightarrow> digitRun cs = []"
  by (cases cs) (simp_all add: digitRun_def)

lemma replaceAll_no_match:
  assumes "\<And>p c cs. \<forall>x\<in>set cs. \<not> isDigit x \<Longrightarrow> m p c cs = None"
  shows "\<forall>x\<in>set s. \<not> isDigit x \<Longrightarrow> replaceAll m p s = s"
  by (induction s arbitrary: p) (simp_all add: assms)

lemma caretRule_no_digit: "\<forall>x\<in>set cs. \<not> isDigit x \<Longrightarrow> caretRule p c cs = None"
  by (simp add: caretRule_def digitRun_no_digit)

lemma underscoreRule_no_digit: "\<forall>x\<in>set cs. \<not> isDigit x \<Longrightarrow> underscoreRule p c cs = None"
  by (simp add: underscoreRule_def digitRun_no_digit)

lemma subExtendRule_no_digit: "\<forall>x\<in>set cs. \<not> isDigit x \<Longrightarrow> subExtendRule p c cs = None"
  by (simp add: subExtendRule_def digitRun_no_digit)

lemma supExtendRule_no_digit: "\<forall>x\<in>set cs. \<not> isDigit x \<Longrightarrow> supExtendRule p c cs = None"
  by (simp add: supExtendRule_def digitRun_no_digit)

lemma elementRule_no_digit: "\<forall>x\<in>set cs. \<not> isDigit x \<Longrightarrow> elementRule p c cs = None"
  by (cases cs) (simp_all add: elementRule_def digitRun_no_digit)

lemma variableRule_no_digit: "\<forall>x\<in>set cs. \<not> isDigit x \<Longrightarrow> variableRule p c cs = None"
  by (simp add: variableRule_def digitRun_no_digit)

lemma format_no_digit:
  assumes "\<forall>x\<in>set s. \<not> isDigit x"
  shows "formatScientificText s = s"
  using assms
  by (simp add: formatScientificText_def Let_def
      replaceAll_no_match [of caretRule, OF caretRule_no_digit]
      replaceAll_no_match [of underscoreRule, OF underscoreRule_no_digit]
      replaceAll_no_match [of subExtendRule, OF subExtendRule_no_digit]
      replaceAll_no_match [of supExtendRule, OF supExtendRule_no_digit]
      replaceAll_no_match [of elementRule, OF elementRule_no_digit]
      replaceAll_no_match [of variableRule, OF variableRule_no_digit])

lemma format_True: "formatScientificText (asc ''True'') = asc ''True''"
  by (rule format_no_digit) (simp add: asc_def isDigit_def)

lemma format_False: "formatScientificText (asc ''False'') = asc ''False''"
  by (rule format_no_digit) (simp add: asc_def isDigit_def)

lemma format_empty: "formatScientificText [] = []"
  by (simp add: formatScientificText_def)

subsection \<open>Adjacent code units\<close>

lemma headIs_simps [simp]: "headIs A [] = False" "headIs A (x # xs) = A x"
  by (simp_all add: headIs_def)

lemma noPair_Cons: "noPair A B (c # t) \<longleftrightarrow> \<not> (A c \<and> headIs B t) \<and> noPair A B t"
  by (cases t) simp_all

lemma noPair_append_clean:
  "\<forall>x\<in>set xs. \<not> B x \<Longrightarrow> \<not> headIs B ys \<Longrightarrow> noPair A B ys \<Longrightarrow> noPair A B (xs @ ys)"
proof (induction xs)
  case Nil
  then show ?case by simp
next
  case (Cons x xs)
  then have "\<not> headIs B (xs @ ys)" by (cases xs) simp_all
  with Cons show ?case by (simp add: noPair_Cons)
qed

lemma noPair_drop: "noPair A B t \<Longrightarrow> noPair A B (drop k t)"
proof (induction t arbitrary: k)
  case Nil
  then show ?case by simp
next
  case (Cons c t)
  then show ?case by (cases k) (simp_all add: noPair_Cons)
qed

subsection \<open>Digit runs and glyphs\<close>

lemma digitRun_nonempty: "digitRun cs \<noteq> [] \<longleftrightarrow> headIs isDigit cs"
  by (cases cs) (simp_all add: digitRun_def)

lemma digitRun_digits: "\<forall>x\<in>set (digitRun cs). isDigit x"
  by (auto simp: digitRun_def dest: set_takeWhileD)

lemma digitRun_rest: "\<not> headIs isDigit (drop (length (digitRun cs)) cs)"
  unfolding digitRun_def by (induction cs) simp_all

lemma digitRun_take: "take (length (digitRun cs)) cs = digitRun cs"
  by (simp add: digitRun_def takeWhile_eq_take [symmetric])

lemma glyphs_high:
  assumes "\<forall>g\<in>set table. 128 \<le> g" and "length table = 10"
  shows "\<forall>x\<in>set (glyphs table num). 128 \<le> x"
proof -
  have "128 \<le> table ! (d - 48)" if "isDigit d" for d
  proof -
    from that assms(2) have "d - 48 < length table" unfolding isDigit_def by linarith
    with assms(1) show ?thesis by (meson nth_mem)
  qed
  then show ?thesis by (auto simp: glyphs_def)
qed

lemma glyphs_nonempty: "headIs isDigit num \<Longrightarrow> glyphs table num \<noteq> []"
  by (cases num) (simp_all add: glyphs_def)

lemma toSub_high: "\<forall>x\<in>set (toSub num). 128 \<le> x"
  unfolding toSub_def by (rule glyphs_high) (simp_all add: subGlyphs_def)

lemma toSup_high: "\<forall>x\<in>set (toSup num). 128 \<le> x"
  unfolding toSup_def by (rule glyphs_high) (simp_all add: supGlyphs_def)

lemma toSub_nonempty: "headIs isDigit cs \<Longrightarrow> toSub (digitRun cs) \<noteq> []"
  unfolding toSub_def by (rule glyphs_nonempty) (cases cs, simp_all add: digitRun_def)

lemma toSup_nonempty: "headIs isDigit cs \<Longrightarrow> toSup (digitRun cs) \<noteq> []"
  unfolding toSup_def by (rule glyphs_nonempty) (cases cs, simp_all add: digitRun_def)

lemma high_classes: "128 \<le> x \<Longrightarrow> \<not> isDigit x \<and> \<not> isLower x \<and> \<not> isUpper x \<and> \<not> isWord x"
  by (simp add: isDigit_def isLower_def isUpper_def isWord_def)


lemma high_list:
  assumes "g \<noteq> []" and "\<forall>x\<in>set g. 128 \<le> x"
  shows "128 \<le> hd g" and "128 \<le> last g"
  using assms by (simp_all add: hd_in_set)

lemma toSup_run:
  assumes "headIs isDigit cs"
  shows "toSup (digitRun cs) \<noteq> []" and "128 \<le> hd (toSup (digitRun cs))"
    and "128 \<le> last (toSup (digitRun cs))" and "\<forall>x\<in>set (toSup (digitRun cs)). \<not> isDigit x"
  using toSup_nonempty [OF assms] toSup_high [of "digitRun cs"]
  by (auto simp: high_list high_classes)

lemma toSub_run:
  assumes "headIs isDigit cs"
  shows "toSub (digitRun cs) \<noteq> []" and "128 \<le> hd (toSub (digitRun cs))"
    and "128 \<le> last (toSub (digitRun cs))" and "\<forall>x\<in>set (toSub (digitRun cs)). \<not> isDigit x"
  using toSub_nonempty [OF assms] toSub_high [of "digitRun cs"]
  by (auto simp: high_list high_classes)

subsection \<open>The shape of a match\<close>

lemma cleanMatchI:
  assumes "\<And>p c cs out k. m p c cs = Some (out, k) \<Longrightarrow>
        \<not> isDigit c \<and> out \<noteq> [] \<and> (\<forall>x \<in> set out. \<not> isDigit x) \<and> 128 \<le> last out
        \<and> \<not> headIs isDigit (drop k cs)
        \<and> (\<not> isLower (hd out) \<or> (hd out = c \<and> 2 \<le> length out))"
  shows "cleanMatch m"
  unfolding cleanMatch_def using assms by blast

lemma caretRule_clean: "cleanMatch caretRule"
proof (rule cleanMatchI)
  fix p c cs out k
  assume "caretRule p c cs = Some (out, k)"
  then have c: "c = 94" and h: "headIs isDigit cs" and out: "out = toSup (digitRun cs)"
    and k: "k = length (digitRun cs)"
    by (auto simp: caretRule_def digitRun_nonempty split: if_splits)
  from toSup_run [OF h] high_classes [of "hd (toSup (digitRun cs))"]
  show "\<not> isDigit c \<and> out \<noteq> [] \<and> (\<forall>x \<in> set out. \<not> isDigit x) \<and> 128 \<le> last out
        \<and> \<not> headIs isDigit (drop k cs)
        \<and> (\<not> isLower (hd out) \<or> (hd out = c \<and> 2 \<le> length out))"
    by (simp add: c out k digitRun_rest isDigit_def)
qed

lemma underscoreRule_clean: "cleanMatch underscoreRule"
proof (rule cleanMatchI)
  fix p c cs out k
  assume "underscoreRule p c cs = Some (out, k)"
  then have c: "c = 95" and h: "headIs isDigit cs" and out: "out = toSub (digitRun cs)"
    and k: "k = length (digitRun cs)"
    by (auto simp: underscoreRule_def digitRun_nonempty split: if_splits)
  from toSub_run [OF h] high_classes [of "hd (toSub (digitRun cs))"]
  show "\<not> isDigit c \<and> out \<noteq> [] \<and> (\<forall>x \<in> set out. \<not> isDigit x) \<and> 128 \<le> last out
        \<and> \<not> headIs isDigit (drop k cs)
        \<and> (\<not> isLower (hd out) \<or> (hd out = c \<and> 2 \<le> length out))"
    by (simp add: c out k digitRun_rest isDigit_def)
qed

lemma subExtendRule_clean: "cleanMatch subExtendRule"
proof (rule cleanMatchI)
  fix p c cs out k
  assume "subExtendRule p c cs = Some (out, k)"
  then have c: "isSubRange c" and h: "headIs isDigit cs" and out: "out = c # toSub (digitRun cs)"
    and k: "k = length (digitRun cs)"
    by (auto simp: subExtendRule_def digitRun_nonempty split: if_splits)
  from c have "128 \<le> c" by (simp add: isSubRange_def)
  with toSub_run [OF h] high_classes [of c]
  show "\<not> isDigit c \<and> out \<noteq> [] \<and> (\<forall>x \<in> set out. \<not> isDigit x) \<and> 128 \<le> last out
        \<and> \<not> headIs isDigit (drop k cs)
        \<and> (\<not> isLower (hd out) \<or> (hd out = c \<and> 2 \<le> length out))"
    by (simp add: out k digitRun_rest)
qed

lemma supExtendRule_clean: "cleanMatch supExtendRule"
proof (rule cleanMatchI)
  fix p c cs out k
  assume "supExtendRule p c cs = Some (out, k)"
  then have c: "isSupRange c" and h: "headIs isDigit cs" and out: "out = c # toSup (digitRun cs)"
    and k: "k = length (digitRun cs)"
    by (auto simp: supExtendRule_def digitRun_nonempty split: if_splits)
  from c have "128 \<le> c" by (simp add: isSupRange_def)
  with toSup_run [OF h] high_classes [of c]
  show "\<not> isDigit c \<and> out \<noteq> [] \<and> (\<forall>x \<in> set out. \<not> isDigit x) \<and> 128 \<le> last out
        \<and> \<not> headIs isDigit (drop k cs)
        \<and> (\<not> isLower (hd out) \<or> (hd out = c \<and> 2 \<le> length out))"
    by (simp add: out k digitRun_rest)
qed

lemma letter_classes:
  "isUpper c \<Longrightarrow> \<not> isDigit c \<and> \<not> isLower c"
  "isLower c \<Longrightarrow> \<not> isDigit c \<and> \<not> isUpper c"
  by (simp_all add: isDigit_def isLower_def isUpper_def)

text \<open>When the element rule matches.\<close>

lemma elementRule_Some:
  assumes "elementRule p c cs = Some (out, k)"
  shows "isUpper c \<and>
    ((\<exists>l ds. cs = l # ds \<and> isLower l \<and> headIs isDigit ds
        \<and> out = c # l # toSub (digitRun ds) \<and> k = Suc (length (digitRun ds)))
     \<or> (headIs isDigit cs \<and> out = c # toSub (digitRun cs) \<and> k = length (digitRun cs)))"
  using assms
  by (cases cs) (auto simp: elementRule_def digitRun_nonempty split: if_splits)

lemma elementRule_clean: "cleanMatch elementRule"
proof (rule cleanMatchI)
  fix p c cs out k
  assume m: "elementRule p c cs = Some (out, k)"
  from elementRule_Some [OF m] have up: "isUpper c" by simp
  from elementRule_Some [OF m] consider
    (two) l ds where "cs = l # ds" "isLower l" "headIs isDigit ds"
        "out = c # l # toSub (digitRun ds)" "k = Suc (length (digitRun ds))"
    | (one) "headIs isDigit cs" "out = c # toSub (digitRun cs)" "k = length (digitRun cs)"
    by blast
  then show "\<not> isDigit c \<and> out \<noteq> [] \<and> (\<forall>x \<in> set out. \<not> isDigit x) \<and> 128 \<le> last out
        \<and> \<not> headIs isDigit (drop k cs)
        \<and> (\<not> isLower (hd out) \<or> (hd out = c \<and> 2 \<le> length out))"
  proof cases
    case two
    with toSub_run [OF two(3)] letter_classes [of c] letter_classes [of l] up
    show ?thesis by (simp add: digitRun_rest)
  next
    case one
    with toSub_run [OF one(1)] letter_classes [of c] up
    show ?thesis by (simp add: digitRun_rest)
  qed
qed

lemma variableRule_Some:
  "variableRule p c cs = Some (out, k) \<longleftrightarrow>
     p \<noteq> isWord c \<and> isLower c \<and> headIs isDigit cs
     \<and> out = c # toSup (digitRun cs) \<and> k = length (digitRun cs)"
  by (auto simp: variableRule_def digitRun_nonempty)

lemma variableRule_clean: "cleanMatch variableRule"
proof (rule cleanMatchI)
  fix p c cs out k
  assume "variableRule p c cs = Some (out, k)"
  then have c: "isLower c" and h: "headIs isDigit cs" and out: "out = c # toSup (digitRun cs)"
    and k: "k = length (digitRun cs)"
    by (simp_all add: variableRule_Some)
  from toSup_run [OF h] letter_classes [of c] c
  show "\<not> isDigit c \<and> out \<noteq> [] \<and> (\<forall>x \<in> set out. \<not> isDigit x) \<and> 128 \<le> last out
        \<and> \<not> headIs isDigit (drop k cs)
        \<and> (\<not> isLower (hd out) \<or> (hd out = c \<and> 2 \<le> length out))"
    by (cases "toSup (digitRun cs)") (simp_all add: out k digitRun_rest)
qed


subsection \<open>What a replacement pass keeps\<close>

lemma replaceAll_cases [case_names Nil None Some]:
  assumes "\<And>p. P p []"
    and "\<And>p c cs. m p c cs = None \<Longrightarrow> P (isWord c) cs \<Longrightarrow> P p (c # cs)"
    and "\<And>p c cs out k. m p c cs = Some (out, k) \<Longrightarrow>
           P (isWord (last (c # take k cs))) (drop k cs) \<Longrightarrow> P p (c # cs)"
  shows "P p t"
proof (induction "length t" arbitrary: p t rule: less_induct)
  case less
  show ?case
  proof (cases t)
    case Nil
    then show ?thesis by (simp add: assms(1))
  next
    case (Cons c cs)
    show ?thesis
    proof (cases "m p c cs")
      case None
      with Cons less show ?thesis by (auto intro: assms(2))
    next
      case (Some a)
      obtain out k where "a = (out, k)" by (cases a)
      with Some Cons less show ?thesis by (auto intro!: assms(3))
    qed
  qed
qed

lemma replaceAll_None: "m p c cs = None \<Longrightarrow> replaceAll m p (c # cs) = c # replaceAll m (isWord c) cs"
  by simp

lemma replaceAll_Some:
  "m p c cs = Some (out, k) \<Longrightarrow>
   replaceAll m p (c # cs) = out @ replaceAll m (isWord (last (c # take k cs))) (drop k cs)"
  by simp

lemma cleanMatchD:
  assumes "cleanMatch m" and "m p c cs = Some (out, k)"
  shows "\<not> isDigit c" and "out \<noteq> []" and "\<forall>x \<in> set out. \<not> isDigit x" and "128 \<le> last out"
    and "\<not> headIs isDigit (drop k cs)"
    and "\<not> isLower (hd out) \<or> (hd out = c \<and> 2 \<le> length out)"
  using assms unfolding cleanMatch_def by blast+

lemma headIs_append: "xs \<noteq> [] \<Longrightarrow> headIs A (xs @ ys) = A (hd xs)"
  by (cases xs) simp_all

lemma replaceAll_head_digit:
  assumes "cleanMatch m"
  shows "headIs isDigit (replaceAll m p t) = headIs isDigit t"
proof (cases t)
  case Nil
  then show ?thesis by simp
next
  case (Cons c cs)
  show ?thesis
  proof (cases "m p c cs")
    case None
    with Cons show ?thesis by simp
  next
    case (Some a)
    obtain out k where a: "a = (out, k)" by (cases a)
    from cleanMatchD [OF assms Some [unfolded a]]
    have "\<not> isDigit c" "out \<noteq> []" "\<not> isDigit (hd out)" by (simp_all add: hd_in_set)
    with Cons Some a show ?thesis by (simp add: headIs_append)
  qed
qed

lemma replaceAll_keeps_noPair_digit:
  assumes "cleanMatch m"
  shows "noPair Q isDigit t \<Longrightarrow> noPair Q isDigit (replaceAll m p t)"
proof (induction p t rule: replaceAll_cases [of _ m])
  case (Nil p)
  then show ?case by simp
next
  case (None p c cs)
  then show ?case
    by (simp add: noPair_Cons replaceAll_head_digit [OF assms])
next
  case (Some p c cs out k)
  from Some.prems have "noPair Q isDigit (drop k cs)"
    by (simp add: noPair_Cons noPair_drop)
  with Some.IH have "noPair Q isDigit (replaceAll m (isWord (last (c # take k cs))) (drop k cs))"
    by simp
  with cleanMatchD [OF assms Some.hyps] Some.hyps show ?case
    by (simp add: noPair_append_clean replaceAll_head_digit [OF assms])
qed

lemma replaceAll_makes_noPair_digit:
  assumes "cleanMatch m"
    and "\<And>p c cs. Q c \<Longrightarrow> headIs isDigit cs \<Longrightarrow> m p c cs \<noteq> None"
  shows "noPair Q isDigit (replaceAll m p t)"
proof (induction p t rule: replaceAll_cases [of _ m])
  case (Nil p)
  then show ?case by simp
next
  case (None p c cs)
  with assms(2) [of c cs p] show ?case
    by (auto simp: noPair_Cons replaceAll_head_digit [OF assms(1)])
next
  case (Some p c cs out k)
  with cleanMatchD [OF assms(1) Some.hyps] show ?case
    by (simp add: noPair_append_clean replaceAll_head_digit [OF assms(1)])
qed

lemma replaceAll_id_noPair_digit:
  assumes "\<And>p c cs out k. m p c cs = Some (out, k) \<Longrightarrow> Q c \<and> headIs isDigit cs"
  shows "noPair Q isDigit t \<Longrightarrow> replaceAll m p t = t"
proof (induction p t rule: replaceAll_cases [of _ m])
  case (Nil p)
  then show ?case by simp
next
  case (None p c cs)
  then show ?case by (simp add: noPair_Cons)
next
  case (Some p c cs out k)
  with assms [OF Some.hyps] show ?case by (simp add: noPair_Cons)
qed


subsection \<open>A capital, a lower-case letter, a digit\<close>

lemma headIs2_simps [simp]:
  "headIs2 A B [] = False" "headIs2 A B [x] = False" "headIs2 A B (x # y # ys) = (A x \<and> B y)"
  by (simp_all add: headIs2_def)

lemma headIs2_Cons: "headIs2 A B (x # t) = (A x \<and> headIs B t)"
  by (cases t) simp_all

lemma noTriple_Cons:
  "noTriple A B C (c # t) \<longleftrightarrow> \<not> (A c \<and> headIs2 B C t) \<and> noTriple A B C t"
proof (cases t)
  case Nil
  then show ?thesis by simp
next
  case (Cons b u)
  then show ?thesis by (cases u) simp_all
qed

lemma noTriple_drop: "noTriple A B C t \<Longrightarrow> noTriple A B C (drop k t)"
proof (induction t arbitrary: k)
  case Nil
  then show ?case by simp
next
  case (Cons c t)
  then show ?case by (cases k) (simp_all add: noTriple_Cons)
qed

lemma noTriple_append_clean:
  assumes "xs \<noteq> []" and "\<forall>x\<in>set xs. \<not> C x" and "\<not> A (last xs)" and "\<not> headIs C ys"
    and "noTriple A B C ys"
  shows "noTriple A B C (xs @ ys)"
  using assms
proof (induction xs)
  case Nil
  then show ?case by simp
next
  case (Cons x xs)
  show ?case
  proof (cases xs)
    case Nil
    with Cons.prems show ?thesis by (simp add: noTriple_Cons)
  next
    case (Cons y zs)
    with Cons.prems have "\<not> headIs C (zs @ ys)" by (cases zs) simp_all
    then have "\<not> headIs2 B C (xs @ ys)" by (simp add: Cons headIs2_Cons)
    moreover from Cons.IH Cons.prems Cons have "noTriple A B C (xs @ ys)" by simp
    ultimately show ?thesis by (simp add: noTriple_Cons)
  qed
qed

lemma replaceAll_head2:
  assumes "cleanMatch m" and "headIs2 isLower isDigit (replaceAll m p t)"
  shows "headIs2 isLower isDigit t"
proof (cases t)
  case Nil
  with assms(2) show ?thesis by simp
next
  case (Cons c cs)
  show ?thesis
  proof (cases "m p c cs")
    case None
    with Cons assms(2) show ?thesis
      by (simp add: headIs2_Cons replaceAll_head_digit [OF assms(1)])
  next
    case (Some a)
    obtain out k where a: "a = (out, k)" by (cases a)
    note d = cleanMatchD [OF assms(1) Some [unfolded a]]
    have "\<not> headIs2 isLower isDigit (out @ u)" if "\<not> headIs isDigit u" for u
    proof (cases out)
      case Nil
      with d(2) show ?thesis by simp
    next
      case c1: (Cons x xs)
      show ?thesis
      proof (cases xs)
        case Nil
        with c1 d(6) that show ?thesis by (simp add: headIs2_Cons)
      next
        case (Cons y ys)
        with c1 d(3) show ?thesis by simp
      qed
    qed
    from this [OF iffD2 [OF arg_cong [where f = Not, OF replaceAll_head_digit [OF assms(1)]] d(5)]]
      assms(2) Cons Some a
    show ?thesis by simp
  qed
qed

lemma replaceAll_keeps_noTriple:
  assumes "cleanMatch m"
    and "noTriple isUpper isLower isDigit t"
  shows "noTriple isUpper isLower isDigit (replaceAll m p t)"
  using assms(2)
proof (induction p t rule: replaceAll_cases [of _ m])
  case (Nil p)
  then show ?case by simp
next
  case (None p c cs)
  then show ?case
    using replaceAll_head2 [OF assms(1), of "isWord c" cs]
    by (auto simp: noTriple_Cons)
next
  case (Some p c cs out k)
  from Some.prems have "noTriple isUpper isLower isDigit (drop k cs)"
    by (simp add: noTriple_Cons noTriple_drop)
  with Some.IH have u: "noTriple isUpper isLower isDigit
      (replaceAll m (isWord (last (c # take k cs))) (drop k cs))" by simp
  note d = cleanMatchD [OF assms(1) Some.hyps]
  from d(4) have "\<not> isUpper (last out)" by (simp add: high_classes)
  with d u Some.hyps show ?case
    by (simp add: noTriple_append_clean replaceAll_head_digit [OF assms(1)])
qed

lemma replaceAll_makes_noTriple:
  assumes "cleanMatch m"
    and "\<And>p c cs. isUpper c \<Longrightarrow> headIs2 isLower isDigit cs \<Longrightarrow> m p c cs \<noteq> None"
  shows "noTriple isUpper isLower isDigit (replaceAll m p t)"
proof (induction p t rule: replaceAll_cases [of _ m])
  case (Nil p)
  then show ?case by simp
next
  case (None p c cs)
  with assms(2) [of c cs p] show ?case
    using replaceAll_head2 [OF assms(1), of "isWord c" cs]
    by (auto simp: noTriple_Cons)
next
  case (Some p c cs out k)
  note d = cleanMatchD [OF assms(1) Some.hyps]
  from d(4) have "\<not> isUpper (last out)" by (simp add: high_classes)
  with d Some show ?case
    by (simp add: noTriple_append_clean replaceAll_head_digit [OF assms(1)])
qed


subsection \<open>A digit, a lower-case letter, a digit\<close>

lemma noTriple_append_left_free:
  "\<forall>x\<in>set xs. \<not> A x \<Longrightarrow> noTriple A B C (xs @ ys) = noTriple A B C ys"
  by (induction xs) (simp_all add: noTriple_Cons)

lemma noTriple_after:
  "noTriple A B C (xs @ ys) \<Longrightarrow> xs \<noteq> [] \<Longrightarrow> A (last xs) \<Longrightarrow> \<not> headIs2 B C ys"
proof (induction xs)
  case Nil
  then show ?case by simp
next
  case (Cons x xs)
  then show ?case by (cases xs) (auto simp: noTriple_Cons)
qed

lemma replaceAll_keeps_digit_lower_digit:
  assumes "cleanMatch m"
  shows "noTriple isDigit isLower isDigit t \<Longrightarrow> noTriple isDigit isLower isDigit (replaceAll m p t)"
proof (induction p t rule: replaceAll_cases [of _ m])
  case (Nil p)
  then show ?case by simp
next
  case (None p c cs)
  then show ?case
    using replaceAll_head2 [OF assms, of "isWord c" cs]
    by (auto simp: noTriple_Cons)
next
  case (Some p c cs out k)
  from Some.prems have "noTriple isDigit isLower isDigit (drop k cs)"
    by (simp add: noTriple_Cons noTriple_drop)
  with Some.IH cleanMatchD(3) [OF assms Some.hyps] Some.hyps show ?case
    by (simp add: noTriple_append_left_free)
qed

subsection \<open>The variable rule\<close>

lemma quiet_fixed: "quiet m p t \<Longrightarrow> replaceAll m p t = t"
  by (induction t arbitrary: p) simp_all

lemma variableRule_None:
  "variableRule p c cs = None \<longleftrightarrow> \<not> (p \<noteq> isWord c \<and> isLower c \<and> headIs isDigit cs)"
  by (simp add: variableRule_def digitRun_nonempty)

lemma lower_is_word: "isLower c \<Longrightarrow> isWord c"
  by (simp add: isWord_def)

text \<open>The variable rule matches nowhere exactly when no lower-case letter at a word
  boundary is followed by a digit.\<close>

lemma quiet_variableRule: "quiet variableRule p t \<longleftrightarrow> \<not> boundaryLetterDigit p t"
  by (induction t arbitrary: p) (auto simp: variableRule_None lower_is_word)

text \<open>A match changes the string: only a string in which the rule matches nowhere is
  left as it is.\<close>

lemma fixed_quiet: "replaceAll variableRule p t = t \<Longrightarrow> quiet variableRule p t"
proof (induction p t rule: replaceAll_cases [of _ variableRule])
  case (Nil p)
  then show ?case by simp
next
  case (None p c cs)
  then show ?case by simp
next
  case (Some p c cs out k)
  from Some.hyps have h: "headIs isDigit cs" and out: "out = c # toSup (digitRun cs)"
    by (simp_all add: variableRule_Some)
  from toSup_run [OF h] have "toSup (digitRun cs) \<noteq> []" "\<not> isDigit (hd (toSup (digitRun cs)))"
    by (simp_all add: high_classes)
  then have "\<not> headIs isDigit (toSup (digitRun cs) @ u)" for u
    by (simp add: headIs_append)
  moreover from Some.prems Some.hyps have "toSup (digitRun cs)
      @ replaceAll variableRule (isWord (last (c # take k cs))) (drop k cs) = cs"
    by (simp add: out)
  ultimately have False using h by metis
  then show ?case ..
qed

lemma quiet_after_glyphs:
  assumes "g \<noteq> []" and "\<forall>x\<in>set g. 128 \<le> x"
  shows "quiet variableRule q (g @ u) = quiet variableRule False u"
  using assms
proof (induction g arbitrary: q)
  case Nil
  then show ?case by simp
next
  case (Cons x g)
  from Cons.prems have x: "\<not> isLower x" "\<not> isWord x" by (simp_all add: high_classes)
  show ?case
  proof (cases g)
    case Nil
    with x show ?thesis by (simp add: variableRule_None)
  next
    case (Cons y ys)
    with Cons.IH [of False] Cons.prems x show ?thesis
      by (simp add: variableRule_None)
  qed
qed

lemma quiet_any_flag:
  assumes "quiet variableRule b u" and "\<not> headIs2 isLower isDigit u"
  shows "quiet variableRule b' u"
  using assms by (cases u) (auto simp: variableRule_None headIs2_Cons)

lemma variableRule_settles:
  "noTriple isDigit isLower isDigit t \<Longrightarrow> quiet variableRule p (replaceAll variableRule p t)"
proof (induction p t rule: replaceAll_cases [of _ variableRule])
  case (Nil p)
  then show ?case by simp
next
  case (None p c cs)
  from None.hyps have r: "replaceAll variableRule p (c # cs)
      = c # replaceAll variableRule (isWord c) cs" by simp
  from None.hyps have "\<not> (p \<noteq> isWord c \<and> isLower c \<and> headIs isDigit cs)"
    by (simp add: variableRule_None)
  with None.IH None.prems show ?case
    unfolding r
    by (simp add: noTriple_Cons variableRule_None replaceAll_head_digit [OF variableRule_clean])
next
  case (Some p c cs out k)
  let ?u = "replaceAll variableRule (isWord (last (c # take k cs))) (drop k cs)"
  from Some.hyps have h: "headIs isDigit cs" and out: "out = c # toSup (digitRun cs)"
    and k: "k = length (digitRun cs)"
    by (simp_all add: variableRule_Some)
  have split: "cs = digitRun cs @ drop k cs"
    using append_take_drop_id [of k cs] by (simp add: k digitRun_take)
  from h have ne: "digitRun cs \<noteq> []" by (simp add: digitRun_nonempty)
  then have "isDigit (last (digitRun cs))"
    using digitRun_digits [of cs] last_in_set by blast
  moreover from Some.prems have "noTriple isDigit isLower isDigit (digitRun cs @ drop k cs)"
    using split by (simp add: noTriple_Cons)
  ultimately have "\<not> headIs2 isLower isDigit (drop k cs)"
    using ne by (rule noTriple_after [rotated 2])
  then have nl: "\<not> headIs2 isLower isDigit ?u"
    using replaceAll_head2 [OF variableRule_clean] by blast
  from Some.prems have "noTriple isDigit isLower isDigit (drop k cs)"
    by (simp add: noTriple_Cons noTriple_drop)
  with Some.IH have "quiet variableRule (isWord (last (c # take k cs))) ?u" by simp
  then have q: "quiet variableRule False ?u" using nl by (rule quiet_any_flag)
  from toSup_run [OF h] have g: "toSup (digitRun cs) \<noteq> []"
    "\<not> isDigit (hd (toSup (digitRun cs)))"
    by (simp_all add: high_classes)
  then have "\<not> headIs isDigit (toSup (digitRun cs) @ ?u)"
    by (simp add: headIs_append)
  moreover from Some.hyps have "replaceAll variableRule p (c # cs) = c # toSup (digitRun cs) @ ?u"
    by (simp add: out)
  ultimately show ?case
    using q g(1) toSup_high [of "digitRun cs"]
    by (simp add: variableRule_None quiet_after_glyphs)
qed

subsection \<open>Where the rules match\<close>

lemma matched: "m p c cs = Some (out, k) \<Longrightarrow> m p c cs \<noteq> None"
  by simp


lemma caretRule_matches:
  "caretRule p c cs = None \<longleftrightarrow> \<not> (c = 94 \<and> headIs isDigit cs)"
  by (simp add: caretRule_def digitRun_nonempty)

lemma underscoreRule_matches:
  "underscoreRule p c cs = None \<longleftrightarrow> \<not> (c = 95 \<and> headIs isDigit cs)"
  by (simp add: underscoreRule_def digitRun_nonempty)

lemma subExtendRule_matches:
  "subExtendRule p c cs = None \<longleftrightarrow> \<not> (isSubRange c \<and> headIs isDigit cs)"
  by (simp add: subExtendRule_def digitRun_nonempty)

lemma supExtendRule_matches:
  "supExtendRule p c cs = None \<longleftrightarrow> \<not> (isSupRange c \<and> headIs isDigit cs)"
  by (simp add: supExtendRule_def digitRun_nonempty)

lemma elementRule_matches:
  "elementRule p c cs = None \<longleftrightarrow>
     \<not> (isUpper c \<and> (headIs2 isLower isDigit cs \<or> headIs isDigit cs))"
proof (cases cs)
  case Nil
  then show ?thesis by (simp add: elementRule_def)
next
  case (Cons l ds)
  then show ?thesis
    by (auto simp: elementRule_def digitRun_nonempty headIs2_Cons)
qed

lemma elementRule_fixed:
  "noPair isUpper isDigit t \<Longrightarrow> noTriple isUpper isLower isDigit t
   \<Longrightarrow> replaceAll elementRule p t = t"
proof (induction p t rule: replaceAll_cases [of _ elementRule])
  case (Nil p)
  then show ?case by simp
next
  case (None p c cs)
  then show ?case by (simp add: noPair_Cons noTriple_Cons)
next
  case (Some p c cs out k)
  from Some.hyps have "elementRule p c cs \<noteq> None" by simp
  then have "isUpper c \<and> (headIs2 isLower isDigit cs \<or> headIs isDigit cs)"
    by (simp only: elementRule_matches not_not)
  with Some.prems have False by (auto simp: noPair_Cons noTriple_Cons)
  then show ?case ..
qed

text \<open>In the output of the six passes none of the first five rules matches, whatever the
  input.\<close>

lemma format_settles:
  defines "five s \<equiv> replaceAll elementRule False
      (replaceAll supExtendRule False (replaceAll subExtendRule False
        (replaceAll underscoreRule False (replaceAll caretRule False s))))"
  shows "noPair (\<lambda>c. c = 94) isDigit (replaceAll variableRule False (five s))"
    and "noPair (\<lambda>c. c = 95) isDigit (replaceAll variableRule False (five s))"
    and "noPair isSubRange isDigit (replaceAll variableRule False (five s))"
    and "noPair isSupRange isDigit (replaceAll variableRule False (five s))"
    and "noPair isUpper isDigit (replaceAll variableRule False (five s))"
    and "noTriple isUpper isLower isDigit (replaceAll variableRule False (five s))"
proof -
  note k2 = replaceAll_keeps_noPair_digit [OF underscoreRule_clean]
    and k3 = replaceAll_keeps_noPair_digit [OF subExtendRule_clean]
    and k4 = replaceAll_keeps_noPair_digit [OF supExtendRule_clean]
    and k5 = replaceAll_keeps_noPair_digit [OF elementRule_clean]
    and k6 = replaceAll_keeps_noPair_digit [OF variableRule_clean]
  have 1: "noPair (\<lambda>c. c = 94) isDigit (replaceAll caretRule False s)"
    by (rule replaceAll_makes_noPair_digit [OF caretRule_clean]) (simp add: caretRule_matches)
  show "noPair (\<lambda>c. c = 94) isDigit (replaceAll variableRule False (five s))"
    unfolding five_def by (intro k2 k3 k4 k5 k6 1)
  have 2: "noPair (\<lambda>c. c = 95) isDigit (replaceAll underscoreRule False x)" for x
    by (rule replaceAll_makes_noPair_digit [OF underscoreRule_clean])
      (simp add: underscoreRule_matches)
  show "noPair (\<lambda>c. c = 95) isDigit (replaceAll variableRule False (five s))"
    unfolding five_def by (intro k3 k4 k5 k6 2)
  have 3: "noPair isSubRange isDigit (replaceAll subExtendRule False x)" for x
    by (rule replaceAll_makes_noPair_digit [OF subExtendRule_clean])
      (simp add: subExtendRule_matches)
  show "noPair isSubRange isDigit (replaceAll variableRule False (five s))"
    unfolding five_def by (intro k4 k5 k6 3)
  have 4: "noPair isSupRange isDigit (replaceAll supExtendRule False x)" for x
    by (rule replaceAll_makes_noPair_digit [OF supExtendRule_clean])
      (simp add: supExtendRule_matches)
  show "noPair isSupRange isDigit (replaceAll variableRule False (five s))"
    unfolding five_def by (intro k5 k6 4)
  have 5: "noPair isUpper isDigit (replaceAll elementRule False x)" for x
    by (rule replaceAll_makes_noPair_digit [OF elementRule_clean])
      (simp add: elementRule_matches)
  show "noPair isUpper isDigit (replaceAll variableRule False (five s))"
    unfolding five_def by (intro k6 5)
  have 6: "noTriple isUpper isLower isDigit (replaceAll elementRule False x)" for x
    by (rule replaceAll_makes_noTriple [OF elementRule_clean])
      (simp add: elementRule_matches)
  show "noTriple isUpper isLower isDigit (replaceAll variableRule False (five s))"
    unfolding five_def by (intro replaceAll_keeps_noTriple [OF variableRule_clean] 6)
qed

lemma format_passes:
  "s \<noteq> [] \<Longrightarrow> formatScientificText s = replaceAll variableRule False (replaceAll elementRule False
      (replaceAll supExtendRule False (replaceAll subExtendRule False
        (replaceAll underscoreRule False (replaceAll caretRule False s)))))"
  by (simp add: formatScientificText_def Let_def)

text \<open>So a second application of the formatter is one more pass of the variable rule.\<close>

lemma format_again:
  "formatScientificText (formatScientificText s)
     = replaceAll variableRule False (formatScientificText s)"
proof (cases "s = []")
  case True
  then show ?thesis by (simp add: formatScientificText_def)
next
  case False
  define t where "t = formatScientificText s"
  note n = format_settles [of s, folded format_passes [OF False], folded t_def]
  have 1: "replaceAll caretRule False t = t"
    using n(1)
    by (rule replaceAll_id_noPair_digit [rotated]) (drule matched, simp add: caretRule_matches)
  have 2: "replaceAll underscoreRule False t = t"
    using n(2)
    by (rule replaceAll_id_noPair_digit [rotated]) (drule matched, simp add: underscoreRule_matches)
  have 3: "replaceAll subExtendRule False t = t"
    using n(3)
    by (rule replaceAll_id_noPair_digit [rotated]) (drule matched, simp add: subExtendRule_matches)
  have 4: "replaceAll supExtendRule False t = t"
    using n(4)
    by (rule replaceAll_id_noPair_digit [rotated]) (drule matched, simp add: supExtendRule_matches)
  have 5: "replaceAll elementRule False t = t"
    using n(5,6) by (rule elementRule_fixed)
  have "formatScientificText t = replaceAll variableRule False t"
    by (simp add: formatScientificText_def Let_def 1 2 3 4 5)
  then show ?thesis by (simp add: t_def)
qed

text \<open>The five earlier passes keep a string free of a digit, a lower-case letter and a
  digit in a row, and on such a string the variable rule leaves itself nothing to match.\<close>

lemma format_quiet:
  assumes "noTriple isDigit isLower isDigit s"
  shows "quiet variableRule False (formatScientificText s)"
proof (cases "s = []")
  case True
  then show ?thesis by (simp add: formatScientificText_def)
next
  case False
  note l = replaceAll_keeps_digit_lower_digit
  have "noTriple isDigit isLower isDigit (replaceAll elementRule False
      (replaceAll supExtendRule False (replaceAll subExtendRule False
        (replaceAll underscoreRule False (replaceAll caretRule False s)))))"
    by (intro l [OF elementRule_clean] l [OF supExtendRule_clean] l [OF subExtendRule_clean]
        l [OF underscoreRule_clean] l [OF caretRule_clean] assms)
  then show ?thesis
    unfolding format_passes [OF False] by (rule variableRule_settles)
qed

lemma format_idempotent_without_digit_lower_digit:
  assumes "noTriple isDigit isLower isDigit s"
  shows "formatScientificText (formatScientificText s) = formatScientificText s"
  unfolding format_again using format_quiet [OF assms] by (rule quiet_fixed)

text \<open>
  C2 as claimed: formatting twice equals formatting once, for every string. It fails for
  \<^verbatim>\<open>a1b2\<close>: the first pass finds no word boundary before the \<^verbatim>\<open>b\<close>, which follows a
  digit, and leaves \<^verbatim>\<open>b2\<close>; in its output the \<^verbatim>\<open>b\<close> follows a superscript, a boundary, and
  the second pass raises the \<^verbatim>\<open>2\<close>.
\<close>

theorem format_not_idempotent_counterexample:
  "formatScientificText (formatScientificText (asc ''a1b2'')) \<noteq> formatScientificText (asc ''a1b2'')"
  by (simp add: fmt_defs isUpper_def asc_def)

text \<open>
  C2 as amended: formatting twice equals formatting once for exactly those strings whose
  formatted text has no lower-case ASCII letter that stands at a word boundary (at the
  start, or after a character that is no letter, digit or underscore of ASCII) and is
  immediately followed by an ASCII digit.
\<close>

theorem format_idempotent_iff:
  "formatScientificText (formatScientificText s) = formatScientificText s
     \<longleftrightarrow> \<not> boundaryLetterDigit False (formatScientificText s)"
proof -
  have "formatScientificText (formatScientificText s) = formatScientificText s
     \<longleftrightarrow> quiet variableRule False (formatScientificText s)"
    unfolding format_again by (blast intro: quiet_fixed fixed_quiet)
  then show ?thesis by (simp add: quiet_variableRule)
qed

theorem format_idempotent_iff_witness:
  "\<not> boundaryLetterDigit False (formatScientificText (asc ''2x + A1b2 + H2O + x^2''))
   \<and> formatScientificText (formatScientificText (asc ''2x + A1b2 + H2O + x^2''))
       = formatScientificText (asc ''2x + A1b2 + H2O + x^2'')
   \<and> boundaryLetterDigit False (formatScientificText (asc ''a1b2''))"
proof -
  have v: "formatScientificText (asc ''2x + A1b2 + H2O + x^2'')
      = [50, 120, 32, 43, 32, 65, 8321, 98, 178, 32, 43, 32, 72, 8322, 79, 32, 43, 32, 120, 178]"
    by (simp add: fmt_defs isUpper_def asc_def)
  have q: "\<not> boundaryLetterDigit False
      [50, 120, 32, 43, 32, 65, 8321, 98, 178, 32, 43, 32, 72, 8322, 79, 32, 43, 32, 120, 178]"
    by (simp add: isLower_def isWord_def isDigit_def isUpper_def)
  have w: "formatScientificText (asc ''a1b2'') = [97, 185, 98, 50]"
    by (simp add: fmt_defs isUpper_def asc_def)
  have b: "boundaryLetterDigit False [97, 185, 98, 50]"
    by (simp add: isLower_def isWord_def isDigit_def isUpper_def)
  from format_idempotent_iff [of "asc ''2x + A1b2 + H2O + x^2''"] q b show ?thesis
    by (simp add: v w)
qed

section \<open>Properties of the normalizer's search\<close>

lemma find_holds: "find P xs = Some x \<Longrightarrow> P x"
  by (induction xs) (auto split: if_splits)

lemma firstObjectArray_isArray: "isArray (Some (firstObjectArray (JArr []) r))"
proof (cases "find (\<lambda>(k, v). case v of JArr (x # xs) \<Rightarrow> typeofObject (Some x) | _ \<Rightarrow> False)
                (ownProps r)")
  case None
  then show ?thesis by (simp add: firstObjectArray_def)
next
  case (Some kv)
  obtain k v where kv: "kv = (k, v)" by (cases kv)
  from find_holds [OF Some] kv
  have "case v of JArr (x # xs) \<Rightarrow> typeofObject (Some x) | _ \<Rightarrow> False" by simp
  then have "isArray (Some v)" by (cases v) auto
  with Some kv show ?thesis by (simp add: firstObjectArray_def)
qed

lemma locateArray_isArray: "isArray (Some (locateArray json))"
  unfolding locateArray_def Let_def
  by (auto split: json.splits option.splits simp: firstObjectArray_isArray)

text \<open>
  C1. The claim: an input in which no candidate array is found, such as \<^verbatim>\<open>{}\<close> and
  \<^verbatim>\<open>{"data":[]}\<close>, gives a structural error and an empty result. The code: the search
  starts from the empty array, which passes the guard before the mapping, so the structural
  error is returned for no input at all, and both inputs give an empty list of questions
  with no error.
\<close>

theorem smartParseJSON_no_structure_error:
  "error (smartParseJSON gen json) \<noteq> Some StructureError
   \<and> smartParseJSON gen (JObj []) = \<lparr> questions = [], meta = Map.empty, error = None \<rparr>
   \<and> smartParseJSON gen (JObj [(asc ''data'', JArr [])])
       = \<lparr> questions = [], meta = Map.empty, error = None \<rparr>"
proof (intro conjI)
  have "isArray (Some (locateArray json))" by (rule locateArray_isArray)
  then obtain xs where "locateArray json = JArr xs"
    by (cases "locateArray json") auto
  then show "error (smartParseJSON gen json) \<noteq> Some StructureError"
    by (simp add: smartParseJSON_def Let_def split: option.splits)
next
  show "smartParseJSON gen (JObj []) = \<lparr> questions = [], meta = Map.empty, error = None \<rparr>"
    by (simp add: smartParseJSON_def locateArray_def rootOf_def getProp_def orElse_def
        extractMeta_def setIf_def firstObjectArray_def)
next
  show "smartParseJSON gen (JObj [(asc ''data'', JArr [])])
       = \<lparr> questions = [], meta = Map.empty, error = None \<rparr>"
    by (simp add: smartParseJSON_def locateArray_def rootOf_def getProp_def orElse_def
        extractMeta_def setIf_def firstObjectArray_def asc_def)
qed

theorem smartParseJSON_no_structure_error_witness:
  "error (smartParseJSON showNat (JObj [])) = None"
  using smartParseJSON_no_structure_error [of showNat "JObj []"] by simp

lemma parseItem_Made:
  assumes "parseItem newId item = Made q"
  shows "\<exists>ty. resolveType item = Some ty
           \<and> q = \<lparr> qid = newId, qtype = ty, qtext = formatScientificText (itemText item),
                   options = map formatScientificText (settleOptions ty (foundOptions item)),
                   correctAnswer = itemCorrectAnswer item,
                   correctAnswerText = Some (formatScientificText (itemCorrectAnswerText ty item)) \<rparr>"
proof (cases "resolveType item")
  case None
  with assms show ?thesis by (simp add: parseItem_def split: if_splits)
next
  case (Some ty)
  with assms show ?thesis by (simp add: parseItem_def split: if_splits)
qed

text \<open>
  C8. For an item of which a question is made: when the resolved type is multiple-choice
  and fewer than two options were found, its options are four empty strings; when the
  resolved type is true-false, its options are True and False, whatever the item held.
\<close>

theorem options_settled_by_type:
  assumes "parseItem newId item = Made q"
  shows "(qtype q = MultipleChoice \<and> length (foundOptions item) < 2 \<longrightarrow> options q = [[], [], [], []])
       \<and> (qtype q = TrueFalse \<longrightarrow> options q = [asc ''True'', asc ''False''])"
proof -
  from parseItem_Made [OF assms] obtain ty where
    q: "qtype q = ty" "options q = map formatScientificText (settleOptions ty (foundOptions item))"
    by auto
  show ?thesis
  proof (cases ty)
    case MultipleChoice
    with q show ?thesis by (simp add: settleOptions_def format_empty)
  next
    case TrueFalse
    with q show ?thesis by (simp add: settleOptions_def format_True format_False)
  next
    case ShortAnswer
    with q show ?thesis by simp
  qed
qed

theorem options_settled_by_type_witness:
  "parseItem (asc ''n1'')
      (JObj [(asc ''question'', JStr (asc ''Sky is blue'')), (asc ''type'', JStr (asc ''tf'')),
             (asc ''options'', JArr [JStr (asc ''yes''), JStr (asc ''no''), JStr (asc ''maybe'')])])
     = Made \<lparr> qid = asc ''n1'', qtype = TrueFalse, qtext = asc ''Sky is blue'',
              options = [asc ''True'', asc ''False''], correctAnswer = 0,
              correctAnswerText = Some [] \<rparr>
   \<and> length (foundOptions
        (JObj [(asc ''text'', JStr (asc ''Pick'')), (asc ''choices'', JArr [JStr (asc ''only'')])])) < 2
   \<and> parseItem (asc ''n2'')
        (JObj [(asc ''text'', JStr (asc ''Pick'')), (asc ''choices'', JArr [JStr (asc ''only'')])])
     = Made \<lparr> qid = asc ''n2'', qtype = MultipleChoice, qtext = asc ''Pick'',
              options = [[], [], [], []], correctAnswer = 0, correctAnswerText = Some [] \<rparr>"
proof -
  have b: "parseItem (asc ''n1'')
      (JObj [(asc ''question'', JStr (asc ''Sky is blue'')), (asc ''type'', JStr (asc ''tf'')),
             (asc ''options'', JArr [JStr (asc ''yes''), JStr (asc ''no''), JStr (asc ''maybe'')])])
     = Made \<lparr> qid = asc ''n1'', qtype = TrueFalse, qtext = asc ''Sky is blue'',
              options = [asc ''True'', asc ''False''], correctAnswer = 0,
              correctAnswerText = Some [] \<rparr>"
    by (simp add: norm_defs fmt_defs)
  have c: "length (foundOptions
        (JObj [(asc ''text'', JStr (asc ''Pick'')), (asc ''choices'', JArr [JStr (asc ''only'')])])) < 2"
    by (simp add: norm_defs)
  have d: "parseItem (asc ''n2'')
        (JObj [(asc ''text'', JStr (asc ''Pick'')), (asc ''choices'', JArr [JStr (asc ''only'')])])
     = Made \<lparr> qid = asc ''n2'', qtype = MultipleChoice, qtext = asc ''Pick'',
              options = [[], [], [], []], correctAnswer = 0, correctAnswerText = Some [] \<rparr>"
    by (simp add: norm_defs fmt_defs)
  from options_settled_by_type [OF b] options_settled_by_type [OF d] b c d
  show ?thesis by simp
qed

text \<open>
  C10 as claimed: for the short-answer type the answer text of the question is the string
  of the resolved correct-answer field. It fails where the formatter changes that string:
  the field \<^verbatim>\<open>"H2O"\<close> gives the answer text with a subscript two.
\<close>

theorem answer_text_is_formatted_counterexample:
  "parseItem (asc ''n1'')
      (JObj [(asc ''type'', JStr (asc ''short'')), (asc ''answer'', JStr (asc ''H2O''))])
     = Made \<lparr> qid = asc ''n1'', qtype = ShortAnswer, qtext = [], options = [],
              correctAnswer = 0, correctAnswerText = Some [72, 8322, 79] \<rparr>
   \<and> Some [72, 8322, 79]
       \<noteq> Some (toString (orElse
            (correctField (JObj [(asc ''type'', JStr (asc ''short'')),
                                 (asc ''answer'', JStr (asc ''H2O''))]))
            (Some (JStr []))))"
  by (simp add: norm_defs fmt_defs)

text \<open>
  C10 as amended: for an item of which a question is made, when the resolved
  correct-answer field is absent or no number, the correct answer is 0; for the
  short-answer type the answer text is the formatter applied to the string of that field,
  the empty string when the field is absent or falsy.
\<close>

theorem correct_answer_defaults:
  assumes "parseItem newId item = Made q"
  shows "((\<forall>n. correctField item \<noteq> Some (JNum n)) \<longrightarrow> correctAnswer q = 0)
       \<and> (qtype q = ShortAnswer \<longrightarrow>
            correctAnswerText q =
              Some (formatScientificText
                     (if truthy (correctField item) then toString (correctField item) else [])))"
proof -
  from parseItem_Made [OF assms] obtain ty where
    q: "qtype q = ty" "correctAnswer q = itemCorrectAnswer item"
      "correctAnswerText q = Some (formatScientificText (itemCorrectAnswerText ty item))"
    by auto
  have a: "(\<forall>n. correctField item \<noteq> Some (JNum n)) \<longrightarrow> itemCorrectAnswer item = 0"
    by (simp add: itemCorrectAnswer_def split: option.splits json.splits)
  have b: "itemCorrectAnswerText ShortAnswer item =
      (if truthy (correctField item) then toString (correctField item) else [])"
    by (simp add: itemCorrectAnswerText_def orElse_def)
  from q a b show ?thesis by auto
qed

theorem correct_answer_defaults_witness:
  "parseItem (asc ''n1'')
      (JObj [(asc ''type'', JStr (asc ''short'')), (asc ''answer'', JStr (asc ''H2O''))])
     = Made \<lparr> qid = asc ''n1'', qtype = ShortAnswer, qtext = [], options = [],
              correctAnswer = 0, correctAnswerText = Some [72, 8322, 79] \<rparr>
   \<and> correctField (JObj [(asc ''type'', JStr (asc ''short'')), (asc ''answer'', JStr (asc ''H2O''))])
       = Some (JStr (asc ''H2O''))
   \<and> formatScientificText (asc ''H2O'') = [72, 8322, 79]"
proof -
  have h: "parseItem (asc ''n1'')
      (JObj [(asc ''type'', JStr (asc ''short'')), (asc ''answer'', JStr (asc ''H2O''))])
     = Made \<lparr> qid = asc ''n1'', qtype = ShortAnswer, qtext = [], options = [],
              correctAnswer = 0, correctAnswerText = Some [72, 8322, 79] \<rparr>"
    by (simp add: norm_defs fmt_defs)
  have f: "correctField (JObj [(asc ''type'', JStr (asc ''short'')), (asc ''answer'', JStr (asc ''H2O''))])
       = Some (JStr (asc ''H2O''))"
    by (simp add: norm_defs)
  from correct_answer_defaults [OF h] h f show ?thesis by simp
qed

section \<open>Properties of applying the editor's JSON\<close>

text \<open>
  C9. When the normalizer returns no question and no error, applying leaves the questions
  of the exam as they were and reports success, every property the normalizer extracted
  is set on the exam, and every other property is kept.
\<close>

theorem apply_keeps_questions_when_none_found:
  assumes "error (smartParseJSON gen j) = None"
    and "questions (smartParseJSON gen j) = []"
  shows "\<exists>ex'. handleApplyJson gen (Some j) prev = (ex', None, True)
           \<and> examQuestions ex' = examQuestions prev
           \<and> (\<forall>k v. meta (smartParseJSON gen j) k = Some v \<longrightarrow> examProps ex' k = Some v)
           \<and> (\<forall>k. meta (smartParseJSON gen j) k = None \<longrightarrow> examProps ex' k = examProps prev k)"
  using assms
  by (simp add: handleApplyJson_def Let_def map_add_def)

theorem apply_keeps_questions_when_none_found_witness:
  "error (smartParseJSON showNat (JObj [(asc ''title'', JStr (asc ''Algebra''))])) = None
   \<and> questions (smartParseJSON showNat (JObj [(asc ''title'', JStr (asc ''Algebra''))])) = []
   \<and> examQuestions (fst (handleApplyJson showNat
        (Some (JObj [(asc ''title'', JStr (asc ''Algebra''))]))
        \<lparr> examProps = [Title \<mapsto> MString (asc ''Draft''), TotalMarks \<mapsto> MNumber (Some (JNum 10))],
          examQuestions = Some [\<lparr> qid = asc ''a'', qtype = ShortAnswer, qtext = asc ''Why'',
            options = [], correctAnswer = 0, correctAnswerText = Some (asc ''so'') \<rparr>] \<rparr>))
     = Some [\<lparr> qid = asc ''a'', qtype = ShortAnswer, qtext = asc ''Why'',
            options = [], correctAnswer = 0, correctAnswerText = Some (asc ''so'') \<rparr>]
   \<and> examProps (fst (handleApplyJson showNat
        (Some (JObj [(asc ''title'', JStr (asc ''Algebra''))]))
        \<lparr> examProps = [Title \<mapsto> MString (asc ''Draft''), TotalMarks \<mapsto> MNumber (Some (JNum 10))],
          examQuestions = Some [\<lparr> qid = asc ''a'', qtype = ShortAnswer, qtext = asc ''Why'',
            options = [], correctAnswer = 0, correctAnswerText = Some (asc ''so'') \<rparr>] \<rparr>)) Title
     = Some (MString (asc ''Algebra''))
   \<and> examProps (fst (handleApplyJson showNat
        (Some (JObj [(asc ''title'', JStr (asc ''Algebra''))]))
        \<lparr> examProps = [Title \<mapsto> MString (asc ''Draft''), TotalMarks \<mapsto> MNumber (Some (JNum 10))],
          examQuestions = Some [\<lparr> qid = asc ''a'', qtype = ShortAnswer, qtext = asc ''Why'',
            options = [], correctAnswer = 0, correctAnswerText = Some (asc ''so'') \<rparr>] \<rparr>)) TotalMarks
     = Some (MNumber (Some (JNum 10)))"
proof -
  have e: "error (smartParseJSON showNat (JObj [(asc ''title'', JStr (asc ''Algebra''))])) = None"
    by (simp add: parse_defs norm_defs)
  have q: "questions (smartParseJSON showNat (JObj [(asc ''title'', JStr (asc ''Algebra''))])) = []"
    by (simp add: parse_defs norm_defs)
  have t: "meta (smartParseJSON showNat (JObj [(asc ''title'', JStr (asc ''Algebra''))])) Title
      = Some (MString (asc ''Algebra''))"
    by (simp add: parse_defs norm_defs)
  have m: "meta (smartParseJSON showNat (JObj [(asc ''title'', JStr (asc ''Algebra''))])) TotalMarks
      = None"
    by (simp add: parse_defs norm_defs)
  define prev where "prev =
        \<lparr> examProps = [Title \<mapsto> MString (asc ''Draft''), TotalMarks \<mapsto> MNumber (Some (JNum 10))],
          examQuestions = Some [\<lparr> qid = asc ''a'', qtype = ShortAnswer, qtext = asc ''Why'',
            options = [], correctAnswer = 0, correctAnswerText = Some (asc ''so'') \<rparr>] \<rparr>"
  from apply_keeps_questions_when_none_found [OF e q, of prev] obtain ex' where
    ex: "handleApplyJson showNat (Some (JObj [(asc ''title'', JStr (asc ''Algebra''))])) prev
        = (ex', None, True)"
    and kq: "examQuestions ex' = examQuestions prev"
    and km: "\<And>k v. meta (smartParseJSON showNat (JObj [(asc ''title'', JStr (asc ''Algebra''))])) k = Some v
          \<Longrightarrow> examProps ex' k = Some v"
    and kp: "\<And>k. meta (smartParseJSON showNat (JObj [(asc ''title'', JStr (asc ''Algebra''))])) k = None
          \<Longrightarrow> examProps ex' k = examProps prev k"
    by blast
  from km [OF t] kp [OF m] kq ex e q show ?thesis
    by (simp add: prev_def)
qed

section \<open>Properties of export and re-import\<close>

text \<open>What the normalizer reads in an exported question: the keys it picks, and the values
  under them.\<close>

lemma exportQuestion_keys:
  "map fst (ownProps (exportQuestion q)) =
     [asc ''text'', asc ''type'', asc ''options'', asc ''correctAnswer'']
     @ (case correctAnswerText q of None \<Rightarrow> [] | Some t \<Rightarrow> [asc ''correctAnswerText''])"
  by (simp add: exportQuestion_def split: option.splits)

lemma exportQuestion_textKey: "textKey (exportQuestion q) = asc ''text''"
  by (simp add: textKey_def findKey_def exportQuestion_keys toLowerCase_def asc_def isUpper_def)

lemma exportQuestion_optionsKey: "optionsKey (exportQuestion q) = asc ''options''"
  by (simp add: optionsKey_def findKey_def exportQuestion_keys toLowerCase_def asc_def isUpper_def)

lemma exportQuestion_correctKey: "correctKey (exportQuestion q) = asc ''correctAnswer''"
  by (simp add: correctKey_def findKey_def exportQuestion_keys toLowerCase_def asc_def isUpper_def)

lemma exportQuestion_props:
  "getProp (exportQuestion q) (asc ''text'') = Some (JStr (qtext q))"
  "getProp (exportQuestion q) (asc ''type'') = Some (JStr (typeName (qtype q)))"
  "getProp (exportQuestion q) (asc ''options'') = Some (JArr (map JStr (options q)))"
  "getProp (exportQuestion q) (asc ''correctAnswer'') = Some (JNum (correctAnswer q))"
  by (simp_all add: getProp_def exportQuestion_def asc_def)

lemma exportQuestion_type: "resolveType (exportQuestion q) = Some (qtype q)"
  unfolding resolveType_def exportQuestion_props
  by (cases "qtype q") (simp_all add: typeName_def toLowerCase_def asc_def isUpper_def)

lemma exportQuestion_text: "itemText (exportQuestion q) = qtext q"
  by (simp add: itemText_def exportQuestion_textKey exportQuestion_props)

lemma exportQuestion_options: "foundOptions (exportQuestion q) = options q"
  by (simp add: foundOptions_def exportQuestion_optionsKey exportQuestion_props comp_def)

lemma exportQuestion_correctField:
  "correctField (exportQuestion q) = Some (JNum (correctAnswer q))"
  by (simp add: correctField_def exportQuestion_correctKey exportQuestion_props)

lemma exportQuestion_correctAnswer: "itemCorrectAnswer (exportQuestion q) = correctAnswer q"
  by (simp add: itemCorrectAnswer_def exportQuestion_correctField)

lemma parseItem_exportQuestion:
  "parseItem newId (exportQuestion q) =
     Made \<lparr> qid = newId, qtype = qtype q, qtext = formatScientificText (qtext q),
            options = map formatScientificText (settleOptions (qtype q) (options q)),
            correctAnswer = correctAnswer q,
            correctAnswerText =
              Some (formatScientificText (itemCorrectAnswerText (qtype q) (exportQuestion q))) \<rparr>"
  by (simp add: parseItem_def exportQuestion_type exportQuestion_text exportQuestion_options
      exportQuestion_correctAnswer)
    (simp add: exportQuestion_def)


lemma parseItems_exported:
  "\<exists>qs'. parseItems gen n (map exportQuestion qs) = Some qs'
     \<and> length qs' = length qs
     \<and> (\<forall>i<length qs. qs' ! i =
           \<lparr> qid = gen (n + i), qtype = qtype (qs ! i),
             qtext = formatScientificText (qtext (qs ! i)),
             options = map formatScientificText (settleOptions (qtype (qs ! i)) (options (qs ! i))),
             correctAnswer = correctAnswer (qs ! i),
             correctAnswerText =
               Some (formatScientificText
                      (itemCorrectAnswerText (qtype (qs ! i)) (exportQuestion (qs ! i)))) \<rparr>)"
proof (induction qs arbitrary: n)
  case Nil
  then show ?case by simp
next
  case (Cons q qs)
  from Cons.IH [of "Suc n"] obtain qs' where
    r: "parseItems gen (Suc n) (map exportQuestion qs) = Some qs'" "length qs' = length qs"
    and nth: "\<And>i. i < length qs \<Longrightarrow> qs' ! i =
           \<lparr> qid = gen (Suc n + i), qtype = qtype (qs ! i),
             qtext = formatScientificText (qtext (qs ! i)),
             options = map formatScientificText (settleOptions (qtype (qs ! i)) (options (qs ! i))),
             correctAnswer = correctAnswer (qs ! i),
             correctAnswerText =
               Some (formatScientificText
                      (itemCorrectAnswerText (qtype (qs ! i)) (exportQuestion (qs ! i)))) \<rparr>"
    by blast
  show ?case
  proof (intro exI conjI allI impI)
    show "parseItems gen n (map exportQuestion (q # qs)) =
        Some (\<lparr> qid = gen n, qtype = qtype q, qtext = formatScientificText (qtext q),
            options = map formatScientificText (settleOptions (qtype q) (options q)),
            correctAnswer = correctAnswer q,
            correctAnswerText =
              Some (formatScientificText (itemCorrectAnswerText (qtype q) (exportQuestion q))) \<rparr>
          # qs')"
      by (simp add: parseItem_exportQuestion r)
  next
    show "length (\<lparr> qid = gen n, qtype = qtype q, qtext = formatScientificText (qtext q),
            options = map formatScientificText (settleOptions (qtype q) (options q)),
            correctAnswer = correctAnswer q,
            correctAnswerText =
              Some (formatScientificText (itemCorrectAnswerText (qtype q) (exportQuestion q))) \<rparr>
          # qs') = length (q # qs)"
      by (simp add: r)
  next
    fix i
    assume "i < length (q # qs)"
    then show "(\<lparr> qid = gen n, qtype = qtype q, qtext = formatScientificText (qtext q),
            options = map formatScientificText (settleOptions (qtype q) (options q)),
            correctAnswer = correctAnswer q,
            correctAnswerText =
              Some (formatScientificText (itemCorrectAnswerText (qtype q) (exportQuestion q))) \<rparr>
          # qs') ! i =
           \<lparr> qid = gen (n + i), qtype = qtype ((q # qs) ! i),
             qtext = formatScientificText (qtext ((q # qs) ! i)),
             options = map formatScientificText
               (settleOptions (qtype ((q # qs) ! i)) (options ((q # qs) ! i))),
             correctAnswer = correctAnswer ((q # qs) ! i),
             correctAnswerText =
               Some (formatScientificText
                      (itemCorrectAnswerText (qtype ((q # qs) ! i)) (exportQuestion ((q # qs) ! i)))) \<rparr>"
      by (cases i) (simp_all add: nth)
  qed
qed

lemma map_of_exported_other:
  assumes "key \<notin> (\<lambda>(name, k). asc name) ` set ps"
  shows "map_of (List.map_filter (\<lambda>(name, k). map_option (\<lambda>j. (asc name, j)) (h k)) ps @ rest) key
       = map_of rest key"
  using assms
  by (induction ps) (auto simp: List.map_filter_simps split: option.splits)

lemma getProp_exportData:
  assumes "key \<notin> (\<lambda>(name, k). asc name) ` set exportedProps"
  shows "getProp (exportData numJson ex) key =
     map_of (case examQuestions ex of
               None \<Rightarrow> []
             | Some qs \<Rightarrow> [(asc ''questions'', JArr (map exportQuestion qs))]) key"
  unfolding getProp_def exportData_def ownProps.simps
  by (rule map_of_exported_other [OF assms])

lemma exportData_exam: "getProp (exportData numJson ex) (asc ''exam'') = None"
proof -
  have "asc ''exam'' \<notin> (\<lambda>(name, k). asc name) ` set exportedProps"
    by (simp add: exportedProps_def asc_def)
  from getProp_exportData [OF this] show ?thesis
    by (simp add: asc_def split: option.splits)
qed

lemma exportData_questions:
  assumes "examQuestions ex = Some qs"
  shows "getProp (exportData numJson ex) (asc ''questions'') = Some (JArr (map exportQuestion qs))"
proof -
  have "asc ''questions'' \<notin> (\<lambda>(name, k). asc name) ` set exportedProps"
    by (simp add: exportedProps_def asc_def)
  from getProp_exportData [OF this] show ?thesis
    by (simp add: assms)
qed

lemma locateArray_exportData:
  assumes "examQuestions ex = Some qs"
  shows "locateArray (exportData numJson ex) = JArr (map exportQuestion qs)"
proof -
  obtain kvs where kvs: "exportData numJson ex = JObj kvs"
    by (simp add: exportData_def)
  have "rootOf (exportData numJson ex) = exportData numJson ex"
    by (simp add: rootOf_def exportData_exam orElse_def)
  with exportData_questions [OF assms, of numJson] show ?thesis
    unfolding locateArray_def by (simp add: kvs)
qed

text \<open>For an exported short-answer question the resolved correct-answer key is
  \<^verbatim>\<open>correctAnswer\<close>, never \<^verbatim>\<open>correctAnswerText\<close>: the answer text that comes back is the
  string of the number, or empty for 0.\<close>

lemma exported_short_answer_text:
  assumes "qtype q = ShortAnswer"
  shows "itemCorrectAnswerText (qtype q) (exportQuestion q) =
     (if correctAnswer q = 0 then [] else jsString (JNum (correctAnswer q)))"
  by (simp add: assms itemCorrectAnswerText_def exportQuestion_correctField orElse_def)

text \<open>
  C3 as claimed: exporting an exam and importing the output again gives the questions
  back, equal on text, type, options, correct answer and answer text. It fails on an exam
  whose question text the formatter still changes: the text a, superscript one, b, 2 (what
  the editor stores when \<^verbatim>\<open>a1b2\<close> is pasted) comes back with the 2 raised.
\<close>

theorem export_import_round_trip_counterexample:
  "map qtext (questions (smartParseJSON showNat (exportData (case_option JNull id)
      \<lparr> examProps = Map.empty,
        examQuestions = Some [\<lparr> qid = asc ''q1'', qtype = MultipleChoice, qtext = [97, 185, 98, 50],
          options = [asc ''yes'', asc ''no''], correctAnswer = 0, correctAnswerText = Some [] \<rparr>] \<rparr>)))
   = [[97, 185, 98, 178]]
   \<and> map qtext (questions (smartParseJSON showNat (exportData (case_option JNull id)
      \<lparr> examProps = Map.empty,
        examQuestions = Some [\<lparr> qid = asc ''q1'', qtype = MultipleChoice, qtext = [97, 185, 98, 50],
          options = [asc ''yes'', asc ''no''], correctAnswer = 0, correctAnswerText = Some [] \<rparr>] \<rparr>)))
   \<noteq> [[97, 185, 98, 50]]
   \<and> formatScientificText (asc ''a1b2'') = [97, 185, 98, 50]"
  by (simp add: parse_defs norm_defs fmt_defs exportData_def exportedProps_def
      List.map_filter_simps exportQuestion_def typeName_def)

text \<open>
  C3 as amended: for an exam whose questions have a text and options that the formatter
  leaves unchanged, at least two options when multiple-choice and the options True and
  False when true-false, exporting and importing again succeeds and gives a list equal to
  the original on text, type, options and correct answer; the answer text of every
  question that is not short-answer comes back as the empty string.
\<close>

theorem export_import_round_trip:
  assumes "examQuestions ex = Some qs"
    and "\<forall>q\<in>set qs. formatScientificText (qtext q) = qtext q
           \<and> (\<forall>opt\<in>set (options q). formatScientificText opt = opt)
           \<and> (qtype q = MultipleChoice \<longrightarrow> 2 \<le> length (options q))
           \<and> (qtype q = TrueFalse \<longrightarrow> options q = [asc ''True'', asc ''False''])"
  shows "error (smartParseJSON gen (exportData numJson ex)) = None
       \<and> map (\<lambda>q. (qtext q, qtype q, options q, correctAnswer q))
             (questions (smartParseJSON gen (exportData numJson ex)))
           = map (\<lambda>q. (qtext q, qtype q, options q, correctAnswer q)) qs
       \<and> (\<forall>q'\<in>set (questions (smartParseJSON gen (exportData numJson ex))).
             qtype q' \<noteq> ShortAnswer \<longrightarrow> correctAnswerText q' = Some [])"
proof -
  from parseItems_exported [of gen 0 qs] obtain qs' where
    p: "parseItems gen 0 (map exportQuestion qs) = Some qs'" and len: "length qs' = length qs"
    and nth: "\<And>i. i < length qs \<Longrightarrow> qs' ! i =
           \<lparr> qid = gen (0 + i), qtype = qtype (qs ! i),
             qtext = formatScientificText (qtext (qs ! i)),
             options = map formatScientificText (settleOptions (qtype (qs ! i)) (options (qs ! i))),
             correctAnswer = correctAnswer (qs ! i),
             correctAnswerText =
               Some (formatScientificText
                      (itemCorrectAnswerText (qtype (qs ! i)) (exportQuestion (qs ! i)))) \<rparr>"
    by blast
  have m: "(case exportData numJson ex of
              JObj kvs \<Rightarrow> extractMeta (rootOf (exportData numJson ex))
            | _ \<Rightarrow> Map.empty) = extractMeta (rootOf (exportData numJson ex))"
    by (simp add: exportData_def)
  have r: "smartParseJSON gen (exportData numJson ex) =
      \<lparr> questions = qs', meta = extractMeta (rootOf (exportData numJson ex)), error = None \<rparr>"
    unfolding smartParseJSON_def locateArray_exportData [OF assms(1)] m Let_def
    by (simp add: p)
  have same: "qtext (qs' ! i) = qtext (qs ! i) \<and> qtype (qs' ! i) = qtype (qs ! i)
      \<and> options (qs' ! i) = options (qs ! i) \<and> correctAnswer (qs' ! i) = correctAnswer (qs ! i)
      \<and> (qtype (qs' ! i) \<noteq> ShortAnswer \<longrightarrow> correctAnswerText (qs' ! i) = Some [])"
    if i: "i < length qs" for i
  proof -
    from i have "qs ! i \<in> set qs" by simp
    with assms(2) have t: "formatScientificText (qtext (qs ! i)) = qtext (qs ! i)"
      and o: "\<forall>opt\<in>set (options (qs ! i)). formatScientificText opt = opt"
      and mc: "qtype (qs ! i) = MultipleChoice \<longrightarrow> 2 \<le> length (options (qs ! i))"
      and tf: "qtype (qs ! i) = TrueFalse \<longrightarrow> options (qs ! i) = [asc ''True'', asc ''False'']"
      by blast+
    from mc tf have s: "settleOptions (qtype (qs ! i)) (options (qs ! i)) = options (qs ! i)"
      by (cases "qtype (qs ! i)") (simp_all add: settleOptions_def)
    from o have "map formatScientificText (options (qs ! i)) = options (qs ! i)"
      by (simp add: map_idI)
    with nth [OF i] t s show ?thesis
      by (simp add: itemCorrectAnswerText_def format_empty)
  qed
  have "map (\<lambda>q. (qtext q, qtype q, options q, correctAnswer q)) qs'
      = map (\<lambda>q. (qtext q, qtype q, options q, correctAnswer q)) qs"
    by (rule nth_equalityI) (simp_all add: len same)
  moreover have "\<forall>q'\<in>set qs'. qtype q' \<noteq> ShortAnswer \<longrightarrow> correctAnswerText q' = Some []"
    using same len by (auto simp: in_set_conv_nth)
  ultimately show ?thesis by (simp add: r)
qed

theorem export_import_round_trip_witness:
  "map (\<lambda>q. (qtext q, qtype q, options q, correctAnswer q))
     (questions (smartParseJSON showNat (exportData (case_option JNull id)
        \<lparr> examProps = [Title \<mapsto> MString (asc ''Quiz'')],
          examQuestions = Some
            [\<lparr> qid = asc ''q1'', qtype = MultipleChoice, qtext = asc ''2+2?'',
               options = [asc ''3'', asc ''4'', asc ''5''], correctAnswer = 1,
               correctAnswerText = None \<rparr>,
             \<lparr> qid = asc ''q2'', qtype = TrueFalse, qtext = asc ''Water is H'' @ [8322] @ asc ''O'',
               options = [asc ''True'', asc ''False''], correctAnswer = 0,
               correctAnswerText = Some [] \<rparr>] \<rparr>)))
   = [(asc ''2+2?'', MultipleChoice, [asc ''3'', asc ''4'', asc ''5''], 1),
      (asc ''Water is H'' @ [8322] @ asc ''O'', TrueFalse, [asc ''True'', asc ''False''], 0)]"
proof -
  define qs where "qs =
            [\<lparr> qid = asc ''q1'', qtype = MultipleChoice, qtext = asc ''2+2?'',
               options = [asc ''3'', asc ''4'', asc ''5''], correctAnswer = 1,
               correctAnswerText = None \<rparr>,
             \<lparr> qid = asc ''q2'', qtype = TrueFalse, qtext = asc ''Water is H'' @ [8322] @ asc ''O'',
               options = [asc ''True'', asc ''False''], correctAnswer = 0,
               correctAnswerText = Some [] \<rparr>]"
  define ex where "ex = \<lparr> examProps = [Title \<mapsto> MString (asc ''Quiz'')], examQuestions = Some qs \<rparr>"
  have a: "examQuestions ex = Some qs" by (simp add: ex_def)
  have b: "\<forall>q\<in>set qs. formatScientificText (qtext q) = qtext q
           \<and> (\<forall>opt\<in>set (options q). formatScientificText opt = opt)
           \<and> (qtype q = MultipleChoice \<longrightarrow> 2 \<le> length (options q))
           \<and> (qtype q = TrueFalse \<longrightarrow> options q = [asc ''True'', asc ''False''])"
    by (simp add: qs_def fmt_defs isUpper_def asc_def)
  from export_import_round_trip [OF a b, of showNat "case_option JNull id"]
  have "map (\<lambda>q. (qtext q, qtype q, options q, correctAnswer q))
             (questions (smartParseJSON showNat (exportData (case_option JNull id) ex)))
           = map (\<lambda>q. (qtext q, qtype q, options q, correctAnswer q)) qs"
    by blast
  then show ?thesis by (simp add: ex_def qs_def)
qed

section \<open>Properties of the results screen\<close>

text \<open>
  C4. The claim: every displayed result is classified as passed exactly when its rounded
  percentage is at least 50. The table row does so; the count of passed results above the
  table compares the unrounded ratio with 0.5. For 199 marks of 400 the percentage is 50
  and the row shows a pass, while the count leaves the result out.
\<close>

theorem pass_mark_paths_disagree:
  "percentage \<lparr> rid = asc ''r1'', examId = asc ''e1'', studentId = asc ''s1'', score = 199,
       totalMarks = 400, submittedAt = None, answers = [] \<rparr> = Fin 50
   \<and> isPassed \<lparr> rid = asc ''r1'', examId = asc ''e1'', studentId = asc ''s1'', score = 199,
       totalMarks = 400, submittedAt = None, answers = [] \<rparr>
   \<and> passedCount [\<lparr> rid = asc ''r1'', examId = asc ''e1'', studentId = asc ''s1'', score = 199,
       totalMarks = 400, submittedAt = None, answers = [] \<rparr>] = 0"
  by code_simp

text \<open>
  C6. When the answers of a result are fewer than the questions of the exam, the
  breakdown still has one verdict for every question, and at every index past the end of
  the answers the answer read is \<^verbatim>\<open>undefined\<close>, the verdict is skipped and it is not correct.
\<close>

theorem review_tolerates_short_answers:
  "length (reviewBreakdown r qs) = length qs
   \<and> (\<forall>i. i < length qs \<and> length (answers r) \<le> i \<longrightarrow>
         studentAnswerIdx (reviewBreakdown r qs ! i) = None
         \<and> isSkipped (reviewBreakdown r qs ! i)
         \<and> \<not> isCorrect (reviewBreakdown r qs ! i))"
  by (simp add: reviewBreakdown_def reviewQuestion_def answerAt_def nth_enumerate_eq Let_def)

theorem review_tolerates_short_answers_witness:
  "length (reviewBreakdown
      \<lparr> rid = asc ''r1'', examId = asc ''e1'', studentId = asc ''s1'', score = 1,
        totalMarks = 2, submittedAt = None, answers = [1] \<rparr>
      [\<lparr> qid = asc ''a'', qtype = MultipleChoice, qtext = asc ''one'',
         options = [asc ''x'', asc ''y''], correctAnswer = 1, correctAnswerText = None \<rparr>,
       \<lparr> qid = asc ''b'', qtype = MultipleChoice, qtext = asc ''two'',
         options = [asc ''x'', asc ''y''], correctAnswer = 0, correctAnswerText = None \<rparr>]) = 2
   \<and> isSkipped (reviewBreakdown
      \<lparr> rid = asc ''r1'', examId = asc ''e1'', studentId = asc ''s1'', score = 1,
        totalMarks = 2, submittedAt = None, answers = [1] \<rparr>
      [\<lparr> qid = asc ''a'', qtype = MultipleChoice, qtext = asc ''one'',
         options = [asc ''x'', asc ''y''], correctAnswer = 1, correctAnswerText = None \<rparr>,
       \<lparr> qid = asc ''b'', qtype = MultipleChoice, qtext = asc ''two'',
         options = [asc ''x'', asc ''y''], correctAnswer = 0, correctAnswerText = None \<rparr>] ! 1)
   \<and> \<not> isCorrect (reviewBreakdown
      \<lparr> rid = asc ''r1'', examId = asc ''e1'', studentId = asc ''s1'', score = 1,
        totalMarks = 2, submittedAt = None, answers = [1] \<rparr>
      [\<lparr> qid = asc ''a'', qtype = MultipleChoice, qtext = asc ''one'',
         options = [asc ''x'', asc ''y''], correctAnswer = 1, correctAnswerText = None \<rparr>,
       \<lparr> qid = asc ''b'', qtype = MultipleChoice, qtext = asc ''two'',
         options = [asc ''x'', asc ''y''], correctAnswer = 0, correctAnswerText = None \<rparr>] ! 1)"
  using review_tolerates_short_answers
    [of "\<lparr> rid = asc ''r1'', examId = asc ''e1'', studentId = asc ''s1'', score = 1,
           totalMarks = 2, submittedAt = None, answers = [1] \<rparr>"
        "[\<lparr> qid = asc ''a'', qtype = MultipleChoice, qtext = asc ''one'',
            options = [asc ''x'', asc ''y''], correctAnswer = 1, correctAnswerText = None \<rparr>,
          \<lparr> qid = asc ''b'', qtype = MultipleChoice, qtext = asc ''two'',
            options = [asc ''x'', asc ''y''], correctAnswer = 0, correctAnswerText = None \<rparr>]",
     THEN conjunct2, rule_format, of 1]
  by (simp add: reviewBreakdown_def)






section \<open>Properties of the builder\<close>

text \<open>
  C7. For a question of the list, switching its type to true-false leaves it with the
  options True and False and the correct answer 0; switching it to short-answer leaves it
  with no options.
\<close>

theorem changeType_resets:
  assumes "idx < length qs"
  shows "(\<exists>qs'. changeType idx TrueFalse qs = Some qs'
            \<and> qtype (qs' ! idx) = TrueFalse
            \<and> options (qs' ! idx) = [asc ''True'', asc ''False'']
            \<and> correctAnswer (qs' ! idx) = 0)
       \<and> (\<exists>qs'. changeType idx ShortAnswer qs = Some qs'
            \<and> qtype (qs' ! idx) = ShortAnswer
            \<and> options (qs' ! idx) = [])"
  using assms by (simp add: changeType_def retype_def)

theorem changeType_resets_witness:
  "(0::nat) < length [\<lparr> qid = asc ''a'', qtype = MultipleChoice, qtext = asc ''one'',
         options = [asc ''x'', asc ''y'', asc ''z''], correctAnswer = 2, correctAnswerText = None \<rparr>]
   \<and> (\<exists>qs'. changeType 0 TrueFalse [\<lparr> qid = asc ''a'', qtype = MultipleChoice, qtext = asc ''one'',
         options = [asc ''x'', asc ''y'', asc ''z''], correctAnswer = 2, correctAnswerText = None \<rparr>]
           = Some qs'
         \<and> options (qs' ! 0) = [asc ''True'', asc ''False''] \<and> correctAnswer (qs' ! 0) = 0)
   \<and> (\<exists>qs'. changeType 0 ShortAnswer [\<lparr> qid = asc ''a'', qtype = MultipleChoice, qtext = asc ''one'',
         options = [asc ''x'', asc ''y'', asc ''z''], correctAnswer = 2, correctAnswerText = None \<rparr>]
           = Some qs'
         \<and> options (qs' ! 0) = [])"
proof -
  have h: "(0::nat) < length [\<lparr> qid = asc ''a'', qtype = MultipleChoice, qtext = asc ''one'',
         options = [asc ''x'', asc ''y'', asc ''z''], correctAnswer = 2, correctAnswerText = None \<rparr>]"
    by simp
  from changeType_resets [OF h] h show ?thesis by blast
qed

end
